theory Spec2Isabelle
  imports Complex_Main "HOL-Library.Char_ord" "HOL-Library.List_Lexorder" "HOL-Library.Option_ord"
begin

section \<open>JavaScript string primitives used by the server\<close>

text \<open>
  A JavaScript string is a sequence of UTF-16 code units and \<open>length\<close> counts code units.
  The model uses \<open>string\<close>, one \<open>char\<close> per code unit, so it covers the texts whose code
  units are below 256 (ASCII and Latin-1). The primitives below are the library functions
  the server calls, restricted to that alphabet.
\<close>

definition nl :: char where
  "nl = CHR 0x0A"

definition is_space :: "char \<Rightarrow> bool" where
  \<comment> \<open>WhiteSpace and LineTerminator of ECMAScript below 256: TAB, LF, VT, FF, CR, SP, NBSP.
      \<open>String.prototype.trim\<close> and the regular expression class \<open>\\s\<close> use the same set.\<close>
  "is_space c = (c \<in> set [CHR 0x09, CHR 0x0A, CHR 0x0B, CHR 0x0C, CHR 0x0D, CHR 0x20, CHR 0xA0])"

definition is_digit :: "char \<Rightarrow> bool" where
  \<comment> \<open>the regular expression class \<open>\\d\<close>\<close>
  "is_digit c = (c \<in> set ''0123456789'')"

definition trim :: "string \<Rightarrow> string" where
  "trim s = rev (dropWhile is_space (rev (dropWhile is_space s)))"

fun startsWith :: "string \<Rightarrow> string \<Rightarrow> bool" where
  "startsWith s [] = True"
| "startsWith [] (p # ps) = False"
| "startsWith (c # cs) (p # ps) = (c = p \<and> startsWith cs ps)"

fun includes_str :: "string \<Rightarrow> string \<Rightarrow> bool" where
  "includes_str [] sub = (sub = [])"
| "includes_str (c # cs) sub = (startsWith (c # cs) sub \<or> includes_str cs sub)"

definition lower_char :: "char \<Rightarrow> char" where
  \<comment> \<open>\<open>toLowerCase\<close> on one code unit below 256: A-Z and the Latin-1 capitals
      (0xC0-0xDE without the multiplication sign 0xD7) move up by 32.\<close>
  "lower_char c =
     (let n = (of_char c :: nat)
      in if (65 \<le> n \<and> n \<le> 90) \<or> (192 \<le> n \<and> n \<le> 222 \<and> n \<noteq> 215)
         then char_of (n + 32) else c)"

definition toLowerCase :: "string \<Rightarrow> string" where
  "toLowerCase s = map lower_char s"

fun split_nl :: "string \<Rightarrow> string list" where
  \<comment> \<open>\<open>s.split('\\n')\<close>\<close>
  "split_nl [] = [[]]"
| "split_nl (c # cs) =
     (if c = nl then [] # split_nl cs
      else (case split_nl cs of [] \<Rightarrow> [[c]] | l # ls \<Rightarrow> (c # l) # ls))"

fun split_nlnl :: "string \<Rightarrow> string list" where
  \<comment> \<open>\<open>s.split('\\n\\n')\<close>: the separator is matched left to right, without overlap\<close>
  "split_nlnl [] = [[]]"
| "split_nlnl [c] = [[c]]"
| "split_nlnl (c # d # cs) =
     (if c = nl \<and> d = nl then [] # split_nlnl cs
      else (case split_nlnl (d # cs) of [] \<Rightarrow> [[c]] | p # ps \<Rightarrow> (c # p) # ps))"

fun join :: "string \<Rightarrow> string list \<Rightarrow> string" where
  \<comment> \<open>\<open>xs.join(sep)\<close>\<close>
  "join sep [] = []"
| "join sep [x] = x"
| "join sep (x # y # ys) = x @ sep @ join sep (y # ys)"

section \<open>Response scorer\<close>

subsection \<open>extractInsights\<close>

definition test_num_dot :: "string \<Rightarrow> bool" where
  \<comment> \<open>\<open>/^\\d+\\./.test(s)\<close>: one or more digits at the start, then a dot\<close>
  "test_num_dot s =
     (takeWhile is_digit s \<noteq> [] \<and>
      (case dropWhile is_digit s of [] \<Rightarrow> False | c # _ \<Rightarrow> c = CHR ''.''))"

definition replace_marker :: "string \<Rightarrow> string" where
  \<comment> \<open>\<open>s.replace(/^[-*]\\s*|^\\d+\\.\\s*/, '')\<close>: the first alternative that matches at the
      start is removed, with the white space after it; no match leaves \<open>s\<close> as it is\<close>
  "replace_marker s =
     (case s of
        [] \<Rightarrow> []
      | c # cs \<Rightarrow>
          if c = CHR ''-'' \<or> c = CHR ''*'' then dropWhile is_space cs
          else if test_num_dot s then dropWhile is_space (tl (dropWhile is_digit s))
          else s)"

definition push_insight :: "string list \<Rightarrow> string \<Rightarrow> string list" where
  \<comment> \<open>the body of \<open>lines.forEach\<close>, on the array \<open>insights\<close>\<close>
  "push_insight insights line =
     (let trimmed = trim line
      in if startsWith trimmed ''-'' \<or> startsWith trimmed ''*'' \<or> test_num_dot trimmed
         then insights @ [replace_marker trimmed]
         else insights)"

definition extractInsights :: "string \<Rightarrow> string list" where
  "extractInsights response =
     (let lines = filter (\<lambda>line. trim line \<noteq> []) (split_nl response);
          insights = foldl push_insight [] lines
      in if length insights = 0
         then (let paragraphs = filter (\<lambda>p. length (trim p) > 50) (split_nlnl response)
               in take 5 paragraphs)
         else take 5 insights)"

text \<open>
  The words of the specification for the lines that count as insights: a line, trimmed and
  not blank, that begins with \<open>-\<close>, with \<open>*\<close>, or with digits and then a dot.
\<close>

definition nonblank_lines :: "string \<Rightarrow> string list" where
  "nonblank_lines t = filter (\<lambda>l. l \<noteq> []) (map trim (split_nl t))"

definition marker_line :: "string \<Rightarrow> bool" where
  "marker_line l =
     (case l of
        [] \<Rightarrow> False
      | c # cs \<Rightarrow>
          c = CHR ''-'' \<or> c = CHR ''*'' \<or>
          (is_digit c \<and> (case dropWhile is_digit cs of [] \<Rightarrow> False | d # _ \<Rightarrow> d = CHR ''.'')))"

text \<open>A response with three marker lines between two plain paragraphs, each longer than 50.\<close>

definition sample_response :: string where
  "sample_response =
     ''The uploaded records cover three regions and two product families.'' @ [nl, nl] @
     ''- first finding'' @ [nl] @ ''  * second finding'' @ [nl] @ ''12. third finding'' @ [nl, nl] @
     ''Overall the figures are stable from one quarter to the next one.''"

definition plain_response :: string where
  "plain_response =
     ''Short introduction.'' @ [nl, nl] @
     ''The uploaded records cover three regions and two product families.''"

subsection \<open>JavaScript numbers\<close>

text \<open>
  A Number is an IEEE 754 double. A finite double is modelled by a mantissa and a binary
  exponent, its value being the mantissa times two to the exponent; one value may have
  several such pairs. A sum or a product is the exact result rounded to 53 significant bits,
  to the nearest such value and to the even mantissa on a tie. Overflow, subnormal numbers
  and NaN are left out: the numbers of the scorer lie between 0.05 and 1.05.
\<close>

datatype float64 = F64 int int

fun value_of :: "float64 \<Rightarrow> rat" where
  "value_of (F64 m e) = (if 0 \<le> e then of_int m * 2 ^ nat e else of_int m / 2 ^ nat (- e))"

function bit_length :: "int \<Rightarrow> nat" where
  \<comment> \<open>the number of binary digits of a positive integer\<close>
  "bit_length n = (if n \<le> 0 then 0 else Suc (bit_length (n div 2)))"
  by pat_completeness auto
termination
  by (relation "measure nat") auto

declare bit_length.simps [simp del]

definition round53 :: "int \<Rightarrow> int \<Rightarrow> float64" where
  \<comment> \<open>the exact value \<open>m * 2 ^ e\<close> rounded to 53 significant bits, ties to even\<close>
  "round53 m e =
     (let n = bit_length \<bar>m\<bar>
      in if n \<le> 53 then F64 m e
         else (let s = n - 53;
                   q = m div 2 ^ s;
                   r = m mod 2 ^ s;
                   half = 2 ^ (s - 1)
               in if half < r \<or> (r = half \<and> odd q) then F64 (q + 1) (e + int s)
                  else F64 q (e + int s)))"

fun fl_add :: "float64 \<Rightarrow> float64 \<Rightarrow> float64" where
  \<comment> \<open>\<open>a + b\<close>\<close>
  "fl_add (F64 m1 e1) (F64 m2 e2) =
     (let e = min e1 e2 in round53 (m1 * 2 ^ nat (e1 - e) + m2 * 2 ^ nat (e2 - e)) e)"

fun fl_mul :: "float64 \<Rightarrow> float64 \<Rightarrow> float64" where
  \<comment> \<open>\<open>a * b\<close>\<close>
  "fl_mul (F64 m1 e1) (F64 m2 e2) = round53 (m1 * m2) (e1 + e2)"

definition fl_min :: "float64 \<Rightarrow> float64 \<Rightarrow> float64" where
  \<comment> \<open>\<open>Math.min(a, b)\<close>\<close>
  "fl_min a b = (if value_of a \<le> value_of b then a else b)"

definition double_literal :: "int \<Rightarrow> int \<Rightarrow> float64" where
  \<comment> \<open>The Number that a decimal literal of the value \<open>p / q\<close> denotes, \<open>p\<close> and \<open>q\<close>
      positive: \<open>p / q\<close> rounded as above. The quotient is cut below its 54th bit and a
      last bit records whether anything was cut.\<close>
  "double_literal p q =
     (let s = 54 + bit_length q - bit_length p;
          n = (p * 2 ^ s) div q;
          sticky = (if (p * 2 ^ s) mod q = 0 then 0 else 1)
      in round53 (2 * n + sticky) (- int s - 1))"

definition number_of_length :: "nat \<Rightarrow> float64" where
  \<comment> \<open>the \<open>length\<close> of an array, an integer below \<open>2 ^ 53\<close>\<close>
  "number_of_length n = F64 (int n) 0"

subsection \<open>calculateConfidence\<close>

definition analyticalKeywords :: "string list" where
  "analyticalKeywords = [''analysis'', ''insight'', ''pattern'', ''recommendation'', ''conclusion'']"

definition calculateConfidence :: "string \<Rightarrow> float64" where
  "calculateConfidence response =
     (let confidence = double_literal 5 10;
          confidence = (if length response > 500 then fl_add confidence (double_literal 1 10)
                        else confidence);
          confidence = (if length response > 1000 then fl_add confidence (double_literal 1 10)
                        else confidence);
          confidence = (if includes_str response [nl] \<or> includes_str response ''-'' \<or> includes_str response ''1.''
                        then fl_add confidence (double_literal 1 10) else confidence);
          foundKeywords = filter (\<lambda>keyword. includes_str (toLowerCase response) keyword) analyticalKeywords;
          confidence = fl_add confidence
                         (fl_mul (number_of_length (length foundKeywords)) (double_literal 5 100))
      in fl_min confidence (double_literal 95 100))"

text \<open>
  The words of the specification. A keyword, written in small letters, occurs in a text
  case-insensitively when some stretch of the text has the letters of the keyword, each in
  either case. The confidence by the rule of the specification, once with every addition
  rounded to a double, in the order of the rule, and once in exact decimal arithmetic.
\<close>

definition upper_letter :: "char \<Rightarrow> char" where
  "upper_letter c =
     (case map_of (zip ''abcdefghijklmnopqrstuvwxyz'' ''ABCDEFGHIJKLMNOPQRSTUVWXYZ'') c of
        None \<Rightarrow> c
      | Some u \<Rightarrow> u)"

definition same_ignoring_case :: "string \<Rightarrow> string \<Rightarrow> bool" where
  "same_ignoring_case part keyword = list_all2 (\<lambda>c l. c = l \<or> c = upper_letter l) part keyword"

definition occurs_ignoring_case :: "string \<Rightarrow> string \<Rightarrow> bool" where
  "occurs_ignoring_case t keyword =
     (\<exists>pre part post. t = pre @ part @ post \<and> same_ignoring_case part keyword)"

definition rounded_sum :: "bool \<Rightarrow> bool \<Rightarrow> bool \<Rightarrow> nat \<Rightarrow> float64" where
  "rounded_sum over500 over1000 structured keywords =
     (let c = double_literal 5 10;
          c = (if over500 then fl_add c (double_literal 1 10) else c);
          c = (if over1000 then fl_add c (double_literal 1 10) else c);
          c = (if structured then fl_add c (double_literal 1 10) else c);
          c = fl_add c (fl_mul (number_of_length keywords) (double_literal 5 100))
      in fl_min c (double_literal 95 100))"

definition exact_sum :: "bool \<Rightarrow> bool \<Rightarrow> bool \<Rightarrow> nat \<Rightarrow> rat" where
  "exact_sum over500 over1000 structured keywords =
     min (5 / 10 + (if over500 then 1 / 10 else 0) + (if over1000 then 1 / 10 else 0)
            + (if structured then 1 / 10 else 0) + of_nat keywords * (5 / 100))
         (95 / 100)"

text \<open>
  The three bonuses of 0.1 add the same number in the same order, so the rounded and the
  exact sum depend on them only through how many apply.
\<close>

definition tenths :: "bool \<Rightarrow> bool \<Rightarrow> bool \<Rightarrow> nat" where
  "tenths a b c = (if a then 1 else 0) + (if b then 1 else 0) + (if c then 1 else 0)"

definition tenths_and_keywords :: "nat \<Rightarrow> nat \<Rightarrow> float64" where
  "tenths_and_keywords j n =
     fl_min (fl_add (((\<lambda>c. fl_add c (double_literal 1 10)) ^^ j) (double_literal 5 10))
                    (fl_mul (number_of_length n) (double_literal 5 100)))
            (double_literal 95 100)"

definition exact_tenths :: "nat \<Rightarrow> nat \<Rightarrow> rat" where
  "exact_tenths j n = min (5 / 10 + of_nat j * (1 / 10) + of_nat n * (5 / 100)) (95 / 100)"

section \<open>LLM test runner: the retry loop of \<open>POST /api/test\<close>\<close>

text \<open>
  A thrown JavaScript value, as far as the handler looks at it: \<open>error.status\<close> (absent on
  an error that is not an HTTP error of the client library) and \<open>error.message\<close>.
\<close>

record js_error =
  err_status :: "nat option"
  err_message :: string

datatype 'c attempt = Resolved 'c | Rejected js_error

text \<open>
  A numeric variable with the keyword of its declaration. A compound assignment to a
  \<open>const\<close> binding computes the new value and then throws a TypeError.
\<close>

datatype binding = Const_binding nat | Let_binding nat

fun binding_value :: "binding \<Rightarrow> nat" where
  "binding_value (Const_binding v) = v"
| "binding_value (Let_binding v) = v"

definition const_assignment_error :: js_error where
  "const_assignment_error = \<lparr>err_status = None, err_message = ''Assignment to constant variable.''\<rparr>"

definition undefined_completion_error :: js_error where
  "undefined_completion_error =
     \<lparr>err_status = None, err_message = ''Cannot read properties of undefined (reading 'choices')''\<rparr>"

fun mul_assign :: "binding \<Rightarrow> nat \<Rightarrow> js_error + binding" where
  "mul_assign (Let_binding v) k = Inr (Let_binding (v * k))"
| "mul_assign (Const_binding v) k = Inl const_assignment_error"

text \<open>
  The state of the loop: \<open>retryCount\<close> and \<open>retryDelay\<close> are the variables of the source;
  \<open>calls\<close> counts the requests sent upstream and \<open>sleeps\<close> lists the delays of the timers
  awaited, in order. The upstream is the outcome of each request, by its number from 0.
\<close>

record runner_state =
  retryCount :: nat
  retryDelay :: binding
  calls :: nat
  sleeps :: "nat list"

definition maxRetries :: nat where
  "maxRetries = 3"

definition initial_runner_state :: runner_state where
  \<comment> \<open>\<open>let retryCount = 0; const maxRetries = 3; const retryDelay = 2000;\<close>\<close>
  "initial_runner_state =
     \<lparr>retryCount = 0, retryDelay = Const_binding 2000, calls = 0, sleeps = []\<rparr>"

function retry_loop :: "(nat \<Rightarrow> 'c attempt) \<Rightarrow> runner_state \<Rightarrow> (js_error + 'c) \<times> runner_state" where
  "retry_loop upstream st =
     (if retryCount st < maxRetries then
        (case upstream (calls st) of
           Resolved completion \<Rightarrow> (Inr completion, st\<lparr>calls := calls st + 1\<rparr>)
         | Rejected error \<Rightarrow>
             if err_status error = Some 429 then
               if retryCount st + 1 < maxRetries then
                 (case mul_assign (retryDelay st) 2 of
                    Inl thrown \<Rightarrow>
                      (Inl thrown,
                       st\<lparr>calls := calls st + 1, retryCount := retryCount st + 1,
                          sleeps := sleeps st @ [binding_value (retryDelay st)]\<rparr>)
                  | Inr doubled \<Rightarrow>
                      retry_loop upstream
                        (st\<lparr>calls := calls st + 1, retryCount := retryCount st + 1,
                            sleeps := sleeps st @ [binding_value (retryDelay st)],
                            retryDelay := doubled\<rparr>))
               else (Inl error, st\<lparr>calls := calls st + 1, retryCount := retryCount st + 1\<rparr>)
             else (Inl error, st\<lparr>calls := calls st + 1\<rparr>))
      else (Inl undefined_completion_error, st))"
  by pat_completeness auto
termination
  by (relation "measure (\<lambda>(upstream, st). maxRetries - retryCount st)") auto

definition run_completion :: "(nat \<Rightarrow> 'c attempt) \<Rightarrow> (js_error + 'c) \<times> runner_state" where
  "run_completion upstream = retry_loop upstream initial_runner_state"

definition test_error_response :: "js_error \<Rightarrow> nat \<times> string" where
  \<comment> \<open>the outer \<open>catch\<close> of the handler: the status code and the \<open>error\<close> field of the body\<close>
  "test_error_response error =
     (if err_status error = Some 401 \<or> includes_str (err_message error) ''UNAUTHORIZED''
      then (401, ''Invalid OpenAI API key. Please check your API key configuration.'')
      else if err_status error = Some 429 \<or> includes_str (err_message error) ''rate limit''
      then (429, ''OpenAI API rate limit exceeded. Please try again in a few minutes.'')
      else if includes_str (err_message error) ''insufficient_quota''
      then (402, ''OpenAI API quota exceeded. Please check your billing.'')
      else if includes_str (err_message error) ''invalid_api_key''
      then (401, ''Invalid OpenAI API key format. Please check your API key.'')
      else (500, ''Failed to test prompt with ChatGPT''))"

text \<open>Two upstreams of the test scenarios, and the error they reject with.\<close>

definition rate_limit_error :: js_error where
  "rate_limit_error = \<lparr>err_status = Some 429, err_message = ''429 Too Many Requests''\<rparr>"

definition always_rate_limited :: "nat \<Rightarrow> string attempt" where
  "always_rate_limited n = Rejected rate_limit_error"

definition twice_then_success :: "nat \<Rightarrow> string attempt" where
  "twice_then_success n = (if n < 2 then Rejected rate_limit_error else Resolved ''ok'')"

section \<open>Prompt compiler: \<open>generatePrompt\<close> of the answer collector\<close>

datatype question_type = text_type | select_type | multiselect_type

record question =
  q_id :: string
  q_text :: string
  q_type :: question_type
  q_required :: bool
  q_hardFilter :: bool
  q_options :: "string list"
  q_tags :: "string list"

text \<open>
  An answer is \<open>string | string[]\<close>. The answers object maps question ids to answers; an id
  that is not among its keys reads as \<open>undefined\<close> (ids that name a member of
  \<open>Object.prototype\<close> are outside the model).
\<close>

datatype answer = Text string | Choices "string list"

fun answer_passes :: "answer \<Rightarrow> bool" where
  \<comment> \<open>\<open>answer && answer !== ''\<close> on a value that is not \<open>undefined\<close>: the empty string is
      falsy; every array is truthy, the empty one too, and no array is \<open>=== ''\<close>\<close>
  "answer_passes (Text s) = (s \<noteq> [])"
| "answer_passes (Choices xs) = True"

fun render_answer :: "answer \<Rightarrow> string" where
  \<comment> \<open>\<open>Array.isArray(answer) ? answer.join(', ') : answer\<close>\<close>
  "render_answer (Choices xs) = join '', '' xs"
| "render_answer (Text s) = s"

definition append_question :: "string set \<Rightarrow> (string \<rightharpoonup> answer) \<Rightarrow> string \<Rightarrow> question \<Rightarrow> string" where
  \<comment> \<open>the body of \<open>questions.forEach\<close>, on the variable \<open>prompt\<close>\<close>
  "append_question excludedQuestions answers prompt question =
     (if q_id question \<in> excludedQuestions then prompt
      else (case answers (q_id question) of
              None \<Rightarrow> prompt
            | Some answer \<Rightarrow>
                if answer_passes answer
                then prompt @ ''- '' @ q_text question @ '': '' @ render_answer answer @ [nl]
                else prompt))"

definition generatePrompt :: "string \<Rightarrow> question list \<Rightarrow> string set \<Rightarrow> (string \<rightharpoonup> answer) \<Rightarrow> string" where
  "generatePrompt promptName questions excludedQuestions answers =
     (let prompt = ''Custom Analysis Prompt'' @ [nl, nl] @ ''Name: '' @ promptName @ [nl, nl]
                     @ ''Context:'' @ [nl];
          prompt = prompt @ ''All answers define our customers ICP for webshop matching'' @ [nl];
          prompt = foldl (append_question excludedQuestions answers) prompt questions;
          prompt = prompt @ [nl]
                     @ ''Instructions: Analyze JSON data with focus on patterns and recommendations.''
                     @ [nl]
      in prompt)"

text \<open>The words of the specification: the fixed parts, a non-empty answer, one question's line.\<close>

definition preamble :: "string \<Rightarrow> string" where
  "preamble promptName =
     ''Custom Analysis Prompt'' @ [nl, nl] @ ''Name: '' @ promptName @ [nl, nl] @ ''Context:'' @ [nl]
       @ ''All answers define our customers ICP for webshop matching'' @ [nl]"

definition trailing_instruction :: string where
  "trailing_instruction =
     [nl] @ ''Instructions: Analyze JSON data with focus on patterns and recommendations.'' @ [nl]"

fun nonempty_answer :: "answer \<Rightarrow> bool" where
  "nonempty_answer (Text s) = (s \<noteq> [])"
| "nonempty_answer (Choices xs) = (xs \<noteq> [])"

definition question_line :: "question \<Rightarrow> answer \<Rightarrow> string" where
  "question_line q a =
     ''- '' @ q_text q @ '': '' @ (case a of Text s \<Rightarrow> s | Choices xs \<Rightarrow> join '', '' xs) @ [nl]"

text \<open>Sample questions and answers for the scenarios below.\<close>

definition sample_question :: "string \<Rightarrow> string \<Rightarrow> question_type \<Rightarrow> question" where
  "sample_question i t ty =
     \<lparr>q_id = i, q_text = t, q_type = ty, q_required = False, q_hardFilter = False,
      q_options = [], q_tags = []\<rparr>"

definition sample_questions :: "question list" where
  "sample_questions =
     [sample_question ''q1'' ''Market'' text_type,
      sample_question ''q2'' ''Budget'' text_type,
      sample_question ''q3'' ''Channels'' multiselect_type,
      sample_question ''q4'' ''Region'' select_type]"

definition sample_answers :: "string \<rightharpoonup> answer" where
  "sample_answers =
     [''q1'' \<mapsto> Text ''B2B'', ''q2'' \<mapsto> Text ''high'', ''q3'' \<mapsto> Choices [''web'', ''retail''],
      ''q4'' \<mapsto> Text '''']"

section \<open>The database of \<open>server/database.js\<close>\<close>

text \<open>
  The tables are lists of rows in insertion order. Columns that hold JSON are kept as the
  serialised text. The column \<open>created_at\<close> (filled by the engine's clock) is left out: no
  statement modelled here reads it. Foreign keys are enforced (\<open>PRAGMA foreign_keys = ON\<close>),
  and every statement commits on its own: the file opens no transaction.
\<close>

type_synonym json = string

record prompt_row =
  p_id :: string
  p_name :: string
  p_base_prompt_id :: "string option"
  p_version :: int
  p_questions :: json
  p_answers :: json
  p_generated_prompt :: string
  p_tags :: json

record test_result_row =
  tr_id :: string
  tr_prompt_id :: string
  tr_prompt_name :: string
  tr_prompt_version :: int
  tr_json_data :: json
  tr_json_type :: string
  tr_result_summary :: string
  tr_result_insights :: json
  tr_confidence :: rat
  tr_processing_time :: int
  tr_chatgpt_response :: string
  tr_model :: string
  tr_tokens_used :: int
  tr_cost_usd :: rat
  tr_success :: int
  tr_error_message :: "string option"
  tr_timestamp :: string

record database =
  prompts :: "prompt_row list"
  test_results :: "test_result_row list"
  prompt_analytics :: "string list"
    \<comment> \<open>the column \<open>prompt_id\<close> of the table \<open>prompt_analytics\<close>; no statement of the file
        writes to this table\<close>

definition empty_database :: database where
  "empty_database = \<lparr>prompts = [], test_results = [], prompt_analytics = []\<rparr>"

datatype sqlite_error = FOREIGN_KEY_failed | UNIQUE_failed string

datatype db_error = Sqlite sqlite_error | Original_not_found

fun error_message :: "db_error \<Rightarrow> string" where
  "error_message (Sqlite FOREIGN_KEY_failed) = ''SQLITE_CONSTRAINT: FOREIGN KEY constraint failed''"
| "error_message (Sqlite (UNIQUE_failed column)) = ''SQLITE_CONSTRAINT: UNIQUE constraint failed: '' @ column"
| "error_message Original_not_found = ''Original prompt not found''"

subsection \<open>createPrompt and clonePrompt\<close>

record new_prompt =
  np_id :: string
  np_name :: string
  np_questions :: json
  np_answers :: json
  np_generatedPrompt :: string
  np_tags :: "json option"

definition select_latest :: "string \<Rightarrow> prompt_row list \<Rightarrow> prompt_row option" where
  \<comment> \<open>\<open>SELECT id, version FROM prompts WHERE name = ? ORDER BY version DESC LIMIT 1\<close>.
      Among rows of the same greatest version the engine may return any; the model returns
      the first of them in table order.\<close>
  "select_latest name rows =
     (case filter (\<lambda>p. p_name p = name) rows of
        [] \<Rightarrow> None
      | r # rs \<Rightarrow> Some (foldl (\<lambda>best p. if p_version best < p_version p then p else best) r rs))"

definition insert_prompt :: "prompt_row \<Rightarrow> database \<Rightarrow> sqlite_error + database" where
  \<comment> \<open>\<open>INSERT INTO prompts\<close>: the primary key, then the foreign key \<open>base_prompt_id\<close>\<close>
  "insert_prompt row db =
     (if p_id row \<in> set (map p_id (prompts db)) then Inl (UNIQUE_failed ''prompts.id'')
      else (case p_base_prompt_id row of
              None \<Rightarrow> Inr (db\<lparr>prompts := prompts db @ [row]\<rparr>)
            | Some b \<Rightarrow>
                if b \<in> set (map p_id (prompts db @ [row]))
                then Inr (db\<lparr>prompts := prompts db @ [row]\<rparr>)
                else Inl FOREIGN_KEY_failed))"

definition createPrompt :: "new_prompt \<Rightarrow> database \<Rightarrow> (db_error + prompt_row) \<times> database" where
  \<comment> \<open>The promise resolves with the fields of the inserted row.\<close>
  "createPrompt prompt db =
     (let existingPrompt = select_latest (np_name prompt) (prompts db);
          basePromptId = (case existingPrompt of Some e \<Rightarrow> Some (p_id e) | None \<Rightarrow> None);
          version = (case existingPrompt of Some e \<Rightarrow> p_version e + 1 | None \<Rightarrow> 1);
          row = \<lparr>p_id = np_id prompt, p_name = np_name prompt, p_base_prompt_id = basePromptId,
                 p_version = version, p_questions = np_questions prompt,
                 p_answers = np_answers prompt, p_generated_prompt = np_generatedPrompt prompt,
                 p_tags = (case np_tags prompt of Some ts \<Rightarrow> ts | None \<Rightarrow> ''[]'')\<rparr>
      in case insert_prompt row db of
           Inl err \<Rightarrow> (Inl (Sqlite err), db)
         | Inr db' \<Rightarrow> (Inr row, db'))"

fun create_all :: "new_prompt list \<Rightarrow> database \<Rightarrow> (db_error + prompt_row) list \<times> database" where
  \<comment> \<open>calls of \<open>createPrompt\<close> one after the other, each awaited before the next starts\<close>
  "create_all [] db = ([], db)"
| "create_all (prompt # rest) db =
     (case createPrompt prompt db of
        (result, db') \<Rightarrow> (case create_all rest db' of (results, db'') \<Rightarrow> (result # results, db'')))"

text \<open>
  The row that \<open>createPrompt\<close> inserts for a base and a version, the rows of a run of
  creations of one name, and the version and id that \<open>select_latest\<close> finds.
\<close>

definition row_of :: "new_prompt \<Rightarrow> string option \<Rightarrow> int \<Rightarrow> prompt_row" where
  "row_of prompt base version =
     \<lparr>p_id = np_id prompt, p_name = np_name prompt, p_base_prompt_id = base,
      p_version = version, p_questions = np_questions prompt,
      p_answers = np_answers prompt, p_generated_prompt = np_generatedPrompt prompt,
      p_tags = (case np_tags prompt of Some ts \<Rightarrow> ts | None \<Rightarrow> ''[]'')\<rparr>"

fun chain_rows :: "int \<Rightarrow> string option \<Rightarrow> new_prompt list \<Rightarrow> prompt_row list" where
  "chain_rows v b [] = []"
| "chain_rows v b (prompt # rest) =
     row_of prompt b (v + 1) # chain_rows (v + 1) (Some (np_id prompt)) rest"

definition latest_version :: "string \<Rightarrow> database \<Rightarrow> int" where
  "latest_version name db = (case select_latest name (prompts db) of None \<Rightarrow> 0 | Some e \<Rightarrow> p_version e)"

definition latest_id :: "string \<Rightarrow> database \<Rightarrow> string option" where
  "latest_id name db = (case select_latest name (prompts db) of None \<Rightarrow> None | Some e \<Rightarrow> Some (p_id e))"

definition clonePrompt :: "string \<Rightarrow> string \<Rightarrow> string option \<Rightarrow> database \<Rightarrow> (db_error + prompt_row) \<times> database" where
  \<comment> \<open>\<open>fresh\<close> is the value of \<open>require('uuid').v4()\<close>; the column \<open>tags\<close> is not in the
      INSERT and takes its default\<close>
  "clonePrompt fresh originalId newName db =
     (case find (\<lambda>p. p_id p = originalId) (prompts db) of
        None \<Rightarrow> (Inl Original_not_found, db)
      | Some row \<Rightarrow>
          (let cloned = \<lparr>p_id = fresh,
                          p_name = (case newName of
                                      None \<Rightarrow> p_name row @ '' (Copy)''
                                    | Some n \<Rightarrow> if n = [] then p_name row @ '' (Copy)'' else n),
                          p_base_prompt_id = Some (p_id row), p_version = 1,
                          p_questions = p_questions row, p_answers = p_answers row,
                          p_generated_prompt = p_generated_prompt row, p_tags = ''[]''\<rparr>
           in case insert_prompt cloned db of
                Inl err \<Rightarrow> (Inl (Sqlite err), db)
              | Inr db' \<Rightarrow> (Inr cloned, db')))"

subsection \<open>deletePrompt and its route\<close>

definition delete_test_results :: "string \<Rightarrow> database \<Rightarrow> sqlite_error + database" where
  \<comment> \<open>\<open>DELETE FROM test_results WHERE prompt_id = ?\<close>: no table refers to \<open>test_results\<close>,
      so no constraint can fail\<close>
  "delete_test_results pid db =
     Inr (db\<lparr>test_results := filter (\<lambda>r. tr_prompt_id r \<noteq> pid) (test_results db)\<rparr>)"

definition delete_prompt_row :: "string \<Rightarrow> database \<Rightarrow> sqlite_error + database" where
  \<comment> \<open>\<open>DELETE FROM prompts WHERE id = ?\<close>: a deleted row must leave no row of \<open>prompts\<close>,
      \<open>test_results\<close> or \<open>prompt_analytics\<close> that refers to it\<close>
  "delete_prompt_row pid db =
     (let remaining = filter (\<lambda>p. p_id p \<noteq> pid) (prompts db)
      in if pid \<notin> set (map p_id (prompts db)) then Inr db
         else if list_ex (\<lambda>p. p_base_prompt_id p = Some pid) remaining
                 \<or> list_ex (\<lambda>r. tr_prompt_id r = pid) (test_results db)
                 \<or> pid \<in> set (prompt_analytics db)
         then Inl FOREIGN_KEY_failed
         else Inr (db\<lparr>prompts := remaining\<rparr>))"

definition deletePrompt :: "string \<Rightarrow> database \<Rightarrow> (db_error + unit) \<times> database" where
  "deletePrompt pid db =
     (case delete_test_results pid db of
        Inl err \<Rightarrow> (Inl (Sqlite err), db)
      | Inr db1 \<Rightarrow>
          (case delete_prompt_row pid db1 of
             Inl err \<Rightarrow> (Inl (Sqlite err), db1)
           | Inr db2 \<Rightarrow> (Inr (), db2)))"

definition delete_prompt_route :: "string \<Rightarrow> database \<Rightarrow> (nat \<times> string) \<times> database" where
  \<comment> \<open>\<open>app.delete('/api/prompts/:id')\<close>: the status and the message of the response\<close>
  "delete_prompt_route pid db =
     (case deletePrompt pid db of
        (Inr ok, db') \<Rightarrow> ((200, ''success''), db')
      | (Inl error, db') \<Rightarrow>
          if includes_str (error_message error) ''FOREIGN KEY constraint failed''
          then ((400, ''Cannot delete prompt: It has dependent data (test results or versioned prompts). Please delete the dependent data first.''), db')
          else ((500, ''Failed to delete prompt''), db'))"

subsection \<open>createTestResult\<close>

record new_test_result =
  ntr_id :: string
  ntr_promptId :: string
  ntr_promptName :: string
  ntr_promptVersion :: "int option"
  ntr_jsonData :: json
  ntr_jsonData_type :: "string option"
  ntr_summary :: string
  ntr_insights :: json
  ntr_confidence :: rat
  ntr_processingTime :: int
  ntr_chatGPTResponse :: string
  ntr_model :: string
  ntr_tokensUsed :: "int option"
  ntr_costUsd :: "rat option"
  ntr_timestamp :: "string option"

definition or_else :: "string option \<Rightarrow> string \<Rightarrow> string" where
  \<comment> \<open>\<open>a || b\<close> on strings: \<open>undefined\<close> and the empty string are falsy\<close>
  "or_else a b = (case a of None \<Rightarrow> b | Some s \<Rightarrow> if s = [] then b else s)"

definition insert_test_result :: "test_result_row \<Rightarrow> database \<Rightarrow> sqlite_error + database" where
  "insert_test_result row db =
     (if tr_id row \<in> set (map tr_id (test_results db)) then Inl (UNIQUE_failed ''test_results.id'')
      else if tr_prompt_id row \<notin> set (map p_id (prompts db)) then Inl FOREIGN_KEY_failed
      else Inr (db\<lparr>test_results := test_results db @ [row]\<rparr>))"

definition createTestResult :: "string \<Rightarrow> new_test_result \<Rightarrow> database \<Rightarrow> (db_error + new_test_result) \<times> database" where
  \<comment> \<open>\<open>now\<close> is \<open>new Date().toISOString()\<close>. The INSERT names fifteen columns; \<open>success\<close> and
      \<open>error_message\<close> are not among them and take the defaults of the schema, 1 and NULL.\<close>
  "createTestResult now testResult db =
     (let row = \<lparr>tr_id = ntr_id testResult,
                 tr_prompt_id = ntr_promptId testResult,
                 tr_prompt_name = ntr_promptName testResult,
                 tr_prompt_version = (case ntr_promptVersion testResult of None \<Rightarrow> 1 | Some v \<Rightarrow> v),
                 tr_json_data = ntr_jsonData testResult,
                 tr_json_type = or_else (ntr_jsonData_type testResult) ''json'',
                 tr_result_summary = ntr_summary testResult,
                 tr_result_insights = ntr_insights testResult,
                 tr_confidence = ntr_confidence testResult,
                 tr_processing_time = ntr_processingTime testResult,
                 tr_chatgpt_response = ntr_chatGPTResponse testResult,
                 tr_model = ntr_model testResult,
                 tr_tokens_used = (case ntr_tokensUsed testResult of None \<Rightarrow> 0 | Some n \<Rightarrow> n),
                 tr_cost_usd = (case ntr_costUsd testResult of None \<Rightarrow> 0 | Some c \<Rightarrow> c),
                 tr_success = 1,
                 tr_error_message = None,
                 tr_timestamp = or_else (ntr_timestamp testResult) now\<rparr>
      in case insert_test_result row db of
           Inl err \<Rightarrow> (Inl (Sqlite err), db)
         | Inr db' \<Rightarrow> (Inr testResult, db'))"

subsection \<open>Analytics\<close>

record daily_analytics =
  da_date :: "string option"
  da_total_tests :: nat
  da_avg_confidence :: rat
  da_avg_processing_time :: rat
  da_success_rate :: rat
  da_total_tokens :: int
  da_total_cost :: rat

definition success_rate_of :: "test_result_row list \<Rightarrow> rat" where
  \<comment> \<open>\<open>SUM(CASE WHEN success = 1 THEN 1 ELSE 0 END) * 100.0 / COUNT(*)\<close> on a group with rows\<close>
  "success_rate_of g =
     of_nat (length (filter (\<lambda>r. tr_success r = 1) g)) * 100 / of_nat (length g)"

definition daily_row :: "string option \<Rightarrow> test_result_row list \<Rightarrow> daily_analytics" where
  "daily_row d g =
     \<lparr>da_date = d,
      da_total_tests = length g,
      da_avg_confidence = sum_list (map tr_confidence g) / of_nat (length g),
      da_avg_processing_time = of_int (sum_list (map tr_processing_time g)) / of_nat (length g),
      da_success_rate = success_rate_of g,
      da_total_tokens = sum_list (map tr_tokens_used g),
      da_total_cost = sum_list (map tr_cost_usd g)\<rparr>"

definition getPromptAnalytics ::
  "(string \<Rightarrow> string option) \<Rightarrow> string \<Rightarrow> string option \<Rightarrow> string option \<Rightarrow> database \<Rightarrow> daily_analytics list" where
  \<comment> \<open>\<open>DATE\<close> is the engine's \<open>DATE()\<close>, NULL on a text that is no time value; a comparison
      with NULL selects nothing; NULL sorts below every text. \<open>if (startDate)\<close> is false on
      \<open>null\<close> and on the empty string.\<close>
  "getPromptAnalytics DATE promptId startDate endDate db =
     (let rows = filter (\<lambda>r. tr_prompt_id r = promptId) (test_results db);
          rows = (case startDate of
                    None \<Rightarrow> rows
                  | Some s \<Rightarrow>
                      if s = [] then rows
                      else filter (\<lambda>r. case DATE (tr_timestamp r) of None \<Rightarrow> False | Some d \<Rightarrow> s \<le> d) rows);
          rows = (case endDate of
                    None \<Rightarrow> rows
                  | Some e \<Rightarrow>
                      if e = [] then rows
                      else filter (\<lambda>r. case DATE (tr_timestamp r) of None \<Rightarrow> False | Some d \<Rightarrow> d \<le> e) rows);
          dates = rev (sort (remdups (map (\<lambda>r. DATE (tr_timestamp r)) rows)))
      in map (\<lambda>d. daily_row d (filter (\<lambda>r. DATE (tr_timestamp r) = d) rows)) dates)"

record overall_analytics =
  oa_prompt_id :: string
  oa_prompt_name :: string
  oa_version :: int
  oa_total_tests :: nat
  oa_avg_confidence :: "rat option"
  oa_avg_processing_time :: "rat option"
  oa_success_rate :: "rat option"
  oa_last_test :: "string option"
  oa_total_tokens :: "int option"
  oa_total_cost :: "rat option"

definition overall_row :: "prompt_row \<Rightarrow> test_result_row list \<Rightarrow> overall_analytics" where
  \<comment> \<open>The group of one prompt under the LEFT JOIN. Without test results the aggregates are
      NULL, and so is the success rate, a division by the count 0.\<close>
  "overall_row p g =
     \<lparr>oa_prompt_id = p_id p,
      oa_prompt_name = p_name p,
      oa_version = p_version p,
      oa_total_tests = length g,
      oa_avg_confidence = (if g = [] then None else Some (sum_list (map tr_confidence g) / of_nat (length g))),
      oa_avg_processing_time =
        (if g = [] then None else Some (of_int (sum_list (map tr_processing_time g)) / of_nat (length g))),
      oa_success_rate = (if g = [] then None else Some (success_rate_of g)),
      oa_last_test = (case map tr_timestamp g of [] \<Rightarrow> None | ts # rest \<Rightarrow> Some (fold max rest ts)),
      oa_total_tokens = (if g = [] then None else Some (sum_list (map tr_tokens_used g))),
      oa_total_cost = (if g = [] then None else Some (sum_list (map tr_cost_usd g)))\<rparr>"

definition getOverallAnalytics :: "database \<Rightarrow> overall_analytics list" where
  \<comment> \<open>\<open>GROUP BY p.id, p.name, p.version\<close>: \<open>id\<close> is the primary key, so each prompt is a group
      of its own; \<open>ORDER BY total_tests DESC\<close>\<close>
  "getOverallAnalytics db =
     sort_key (\<lambda>a. - int (oa_total_tests a))
       (map (\<lambda>p. overall_row p (filter (\<lambda>r. tr_prompt_id r = p_id p) (test_results db))) (prompts db))"

subsection \<open>The states the operations can produce\<close>

inductive reachable :: "database \<Rightarrow> bool" where
  initial: "reachable empty_database"
| create_prompt: "reachable db \<Longrightarrow> reachable (snd (createPrompt prompt db))"
| clone_prompt: "reachable db \<Longrightarrow> reachable (snd (clonePrompt fresh originalId newName db))"
| delete_prompt: "reachable db \<Longrightarrow> reachable (snd (deletePrompt pid db))"
| create_test_result: "reachable db \<Longrightarrow> reachable (snd (createTestResult now testResult db))"

subsection \<open>Sample states\<close>

definition sample_prompt :: "string \<Rightarrow> string \<Rightarrow> new_prompt" where
  "sample_prompt i n =
     \<lparr>np_id = i, np_name = n, np_questions = ''[]'', np_answers = ''{}'',
      np_generatedPrompt = ''Analyze the data'', np_tags = None\<rparr>"

definition other_database :: database where
  "other_database = snd (createPrompt (sample_prompt ''p0'' ''Other'') empty_database)"

definition sample_result :: "string \<Rightarrow> string \<Rightarrow> string \<Rightarrow> new_test_result" where
  "sample_result i pid ts =
     \<lparr>ntr_id = i, ntr_promptId = pid, ntr_promptName = ''Churn'', ntr_promptVersion = Some 1,
      ntr_jsonData = ''{}'', ntr_jsonData_type = Some ''text'', ntr_summary = ''Analysis'',
      ntr_insights = ''[]'', ntr_confidence = 65 / 100, ntr_processingTime = 1200,
      ntr_chatGPTResponse = ''- insight one'', ntr_model = ''gpt-4'', ntr_tokensUsed = None,
      ntr_costUsd = None, ntr_timestamp = Some ts\<rparr>"

definition stored_prompt :: "string \<Rightarrow> string \<Rightarrow> string option \<Rightarrow> int \<Rightarrow> prompt_row" where
  "stored_prompt i n base v =
     \<lparr>p_id = i, p_name = n, p_base_prompt_id = base, p_version = v, p_questions = ''[]'',
      p_answers = ''{}'', p_generated_prompt = ''Analyze the data'', p_tags = ''[]''\<rparr>"

definition stored_result :: "string \<Rightarrow> string \<Rightarrow> string \<Rightarrow> test_result_row" where
  "stored_result i pid ts =
     \<lparr>tr_id = i, tr_prompt_id = pid, tr_prompt_name = ''Churn'', tr_prompt_version = 1,
      tr_json_data = ''{}'', tr_json_type = ''text'', tr_result_summary = ''Analysis'',
      tr_result_insights = ''[]'', tr_confidence = 65 / 100, tr_processing_time = 1200,
      tr_chatgpt_response = ''- insight one'', tr_model = ''gpt-4'', tr_tokens_used = 0,
      tr_cost_usd = 0, tr_success = 1, tr_error_message = None, tr_timestamp = ts\<rparr>"

definition clock :: string where
  "clock = ''2025-01-03T00:00:00.000Z''"

definition tested_database :: database where
  "tested_database =
     snd (createTestResult clock (sample_result ''t3'' ''p1'' ''2025-01-02T09:00:00.000Z'')
       (snd (createTestResult clock (sample_result ''t2'' ''p1'' ''2025-01-01T11:00:00.000Z'')
         (snd (createTestResult clock (sample_result ''t1'' ''p1'' ''2025-01-01T10:00:00.000Z'')
           (snd (createPrompt (sample_prompt ''p1'' ''Churn'') empty_database)))))))"

definition versioned_database :: database where
  "versioned_database =
     snd (createTestResult clock (sample_result ''t1'' ''p1'' ''2025-01-01T10:00:00.000Z'')
       (snd (createPrompt (sample_prompt ''p2'' ''Churn'')
         (snd (createPrompt (sample_prompt ''p1'' ''Churn'') empty_database)))))"

definition date_prefix :: "string \<Rightarrow> string option" where
  "date_prefix ts = (if length ts < 10 then None else Some (take 10 ts))"

section \<open>Properties of the response scorer\<close>

lemma startsWith_iff: "startsWith s p \<longleftrightarrow> (\<exists>post. s = p @ post)"
  by (induction s p rule: startsWith.induct) auto

lemma includes_str_iff: "includes_str s sub \<longleftrightarrow> (\<exists>pre post. s = pre @ sub @ post)"
proof (induction s)
  case Nil
  then show ?case by auto
next
  case (Cons c cs)
  have "(\<exists>pre post. c # cs = pre @ sub @ post) \<longleftrightarrow>
        (\<exists>post. c # cs = sub @ post) \<or> (\<exists>pre post. cs = pre @ sub @ post)"
  proof
    assume "\<exists>pre post. c # cs = pre @ sub @ post"
    then obtain pre post where e: "c # cs = pre @ sub @ post" by blast
    show "(\<exists>post. c # cs = sub @ post) \<or> (\<exists>pre post. cs = pre @ sub @ post)"
    proof (cases pre)
      case Nil
      with e show ?thesis by auto
    next
      case (Cons a pre')
      with e have "cs = pre' @ sub @ post" by simp
      then show ?thesis by blast
    qed
  next
    assume "(\<exists>post. c # cs = sub @ post) \<or> (\<exists>pre post. cs = pre @ sub @ post)"
    then show "\<exists>pre post. c # cs = pre @ sub @ post"
    proof
      assume "\<exists>post. c # cs = sub @ post"
      then obtain post where "c # cs = [] @ sub @ post" by auto
      then show ?thesis by blast
    next
      assume "\<exists>pre post. cs = pre @ sub @ post"
      then obtain pre post where "cs = pre @ sub @ post" by blast
      then have "c # cs = (c # pre) @ sub @ post" by simp
      then show ?thesis by blast
    qed
  qed
  with Cons show ?case by (simp add: startsWith_iff)
qed

lemma includes_str_char: "includes_str s [c] \<longleftrightarrow> c \<in> set s"
  by (induction s) auto

lemma includes_str_lower:
  "includes_str (toLowerCase t) k \<longleftrightarrow> (\<exists>pre mid post. t = pre @ mid @ post \<and> toLowerCase mid = k)"
proof
  assume "includes_str (toLowerCase t) k"
  then obtain a b where "map lower_char t = a @ k @ b"
    unfolding includes_str_iff toLowerCase_def by blast
  then have "\<exists>pre r. t = pre @ r \<and> a = map lower_char pre \<and> k @ b = map lower_char r"
    by (simp add: map_eq_append_conv)
  then obtain pre r where 1: "t = pre @ r" and 2: "k @ b = map lower_char r"
    by blast
  from 2 have "\<exists>mid post. r = mid @ post \<and> k = map lower_char mid \<and> b = map lower_char post"
    by (simp add: append_eq_map_conv)
  then obtain mid post where "r = mid @ post" and "map lower_char mid = k"
    by blast
  with 1 show "\<exists>pre mid post. t = pre @ mid @ post \<and> toLowerCase mid = k"
    unfolding toLowerCase_def by blast
next
  assume "\<exists>pre mid post. t = pre @ mid @ post \<and> toLowerCase mid = k"
  then obtain pre mid post where "t = pre @ mid @ post" and "toLowerCase mid = k" by blast
  then have "toLowerCase t = toLowerCase pre @ k @ toLowerCase post"
    by (auto simp: toLowerCase_def)
  then show "includes_str (toLowerCase t) k"
    unfolding includes_str_iff by blast
qed

lemma includes_str_appendI: "includes_str a k \<Longrightarrow> includes_str (a @ b) k"
proof -
  assume "includes_str a k"
  then obtain pre post where "a = pre @ k @ post"
    unfolding includes_str_iff by blast
  then have "a @ b = pre @ k @ (post @ b)" by simp
  then show ?thesis unfolding includes_str_iff by blast
qed

subsection \<open>Confidence\<close>

lemma bit_length_0 [simp]: "bit_length 0 = 0"
  by (simp add: bit_length.simps)

lemma bit_length_1 [simp]: "bit_length 1 = 1"
  by (simp add: bit_length.simps [of 1] bit_length.simps [of 0])

lemma bit_length_numeral [simp]: "bit_length (numeral k) = Suc (bit_length (numeral k div 2))"
  by (simp add: bit_length.simps [of "numeral k"])

lemma literal_05: "double_literal 5 10 = F64 4503599627370496 (-53)"
  by (simp add: double_literal_def round53_def Let_def)

lemma literal_01: "double_literal 1 10 = F64 7205759403792794 (-56)"
  by (simp add: double_literal_def round53_def Let_def)

lemma literal_005: "double_literal 5 100 = F64 7205759403792794 (-57)"
  by (simp add: double_literal_def round53_def Let_def)

lemma literal_095: "double_literal 95 100 = F64 8556839292003942 (-53)"
  by (simp add: double_literal_def round53_def Let_def)

lemmas literals = literal_05 literal_01 literal_005 literal_095

lemma literals_nearest:
  "value_of (double_literal 5 10) = 5 / 10"
  "\<bar>value_of (double_literal 1 10) - 1 / 10\<bar> < 1 / 2 ^ 57"
  "\<bar>value_of (double_literal 5 100) - 5 / 100\<bar> < 1 / 2 ^ 58"
  "\<bar>value_of (double_literal 95 100) - 95 / 100\<bar> < 1 / 2 ^ 54"
  by (simp_all add: literals)

lemma one_tenth_plus_two_tenths:
  "value_of (fl_add (double_literal 1 10) (double_literal 2 10)) = 5404319552844596 / 2 ^ 54"
  by (simp add: double_literal_def round53_def Let_def)

lemma table:
  "tenths_and_keywords 0 0 = F64 4503599627370496 (-53)"
  "tenths_and_keywords 0 1 = F64 4953959590107546 (-53)"
  "tenths_and_keywords 0 2 = F64 5404319552844595 (-53)"
  "tenths_and_keywords 0 3 = F64 5854679515581645 (-53)"
  "tenths_and_keywords 0 4 = F64 6305039478318694 (-53)"
  "tenths_and_keywords 0 5 = F64 6755399441055744 (-53)"
  "tenths_and_keywords 1 0 = F64 5404319552844595 (-53)"
  "tenths_and_keywords 1 1 = F64 5854679515581645 (-53)"
  "tenths_and_keywords 1 2 = F64 6305039478318694 (-53)"
  "tenths_and_keywords 1 3 = F64 6755399441055744 (-53)"
  "tenths_and_keywords 1 4 = F64 7205759403792794 (-53)"
  "tenths_and_keywords 1 5 = F64 7656119366529843 (-53)"
  "tenths_and_keywords 2 0 = F64 6305039478318694 (-53)"
  "tenths_and_keywords 2 1 = F64 6755399441055744 (-53)"
  "tenths_and_keywords 2 2 = F64 7205759403792793 (-53)"
  "tenths_and_keywords 2 3 = F64 7656119366529843 (-53)"
  "tenths_and_keywords 2 4 = F64 8106479329266892 (-53)"
  "tenths_and_keywords 2 5 = F64 8556839292003942 (-53)"
  "tenths_and_keywords 3 0 = F64 7205759403792793 (-53)"
  "tenths_and_keywords 3 1 = F64 7656119366529843 (-53)"
  "tenths_and_keywords 3 2 = F64 8106479329266892 (-53)"
  "tenths_and_keywords 3 3 = F64 8556839292003942 (-53)"
  "tenths_and_keywords 3 4 = F64 8556839292003942 (-53)"
  "tenths_and_keywords 3 5 = F64 8556839292003942 (-53)"
  by (simp_all add: tenths_and_keywords_def literals number_of_length_def round53_def fl_min_def Let_def
      numeral_2_eq_2 numeral_3_eq_3)


lemmas table_all = table table [unfolded One_nat_def]

lemma tenths_props:
  assumes "j \<le> 3" and "n \<le> 5"
  shows "1 / 2 \<le> value_of (tenths_and_keywords j n)
       \<and> value_of (tenths_and_keywords j n) \<le> value_of (double_literal 95 100)
       \<and> \<bar>value_of (tenths_and_keywords j n) - exact_tenths j n\<bar> < 1 / 10 ^ 15"
proof -
  from assms(1) have j: "j = 0 \<or> j = 1 \<or> j = 2 \<or> j = 3" by arith
  from assms(2) have n: "n = 0 \<or> n = 1 \<or> n = 2 \<or> n = 3 \<or> n = 4 \<or> n = 5" by arith
  from j n show ?thesis
    by (elim disjE) (simp_all add: table_all literal_095 exact_tenths_def)
qed

lemma rounded_sum_tenths: "rounded_sum a b c n = tenths_and_keywords (tenths a b c) n"
  by (cases a; cases b; cases c)
     (simp_all add: rounded_sum_def tenths_and_keywords_def tenths_def Let_def
        numeral_2_eq_2 numeral_3_eq_3)

lemma exact_sum_tenths: "exact_sum a b c n = exact_tenths (tenths a b c) n"
  by (cases a; cases b; cases c) (simp_all add: exact_sum_def exact_tenths_def tenths_def)

lemma tenths_le: "tenths a b c \<le> 3"
  by (simp add: tenths_def)

lemma rounded_sum_props:
  assumes "n \<le> 5"
  shows "1 / 2 \<le> value_of (rounded_sum a b c n)
       \<and> value_of (rounded_sum a b c n) \<le> value_of (double_literal 95 100)
       \<and> \<bar>value_of (rounded_sum a b c n) - exact_sum a b c n\<bar> < 1 / 10 ^ 15"
  unfolding rounded_sum_tenths exact_sum_tenths
  using tenths_props [OF tenths_le assms] .

lemma of_char_less_256: "(of_char c :: nat) < 256"
  by (metis of_char_mod_256 mod_less_divisor zero_less_numeral)

lemma lower_char_small_letter:
  assumes "97 \<le> (of_char l :: nat)" and "(of_char l :: nat) \<le> 122"
  shows "lower_char c = l \<longleftrightarrow> c = l \<or> (of_char c :: nat) + 32 = of_char l"
proof -
  have c: "(of_char c :: nat) < 256" by (rule of_char_less_256)
  have eq: "c = l \<longleftrightarrow> (of_char c :: nat) = of_char l"
    by (simp add: of_char_eq_iff)
  have tb: "take_bit 8 ((of_char c :: nat) + 32) = of_char c + 32" if "(of_char c :: nat) \<le> 222"
    using that by (simp add: take_bit_nat_eq_self)
  show ?thesis
    unfolding lower_char_def Let_def eq
    using assms c by (auto simp: char_of_eq_iff tb)
qed

lemma upper_letter_code:
  assumes "l \<in> set ''abcdefghijklmnopqrstuvwxyz''"
  shows "97 \<le> (of_char l :: nat) \<and> (of_char l :: nat) \<le> 122
       \<and> (of_char (upper_letter l) :: nat) + 32 = of_char l"
  using assms by (auto simp: upper_letter_def)

lemma lower_char_letter:
  assumes "l \<in> set ''abcdefghijklmnopqrstuvwxyz''"
  shows "lower_char c = l \<longleftrightarrow> c = l \<or> c = upper_letter l"
proof -
  from upper_letter_code [OF assms]
  have r: "97 \<le> (of_char l :: nat)" "(of_char l :: nat) \<le> 122"
    and u: "(of_char (upper_letter l) :: nat) + 32 = of_char l"
    by simp_all
  have "c = upper_letter l \<longleftrightarrow> (of_char c :: nat) = of_char (upper_letter l)"
    by (simp add: of_char_eq_iff)
  also have "\<dots> \<longleftrightarrow> (of_char c :: nat) + 32 = of_char l"
    using u by arith
  finally show ?thesis
    using lower_char_small_letter [OF r, of c] by simp
qed

lemma map_eq_list_all2: "map f xs = ys \<longleftrightarrow> list_all2 (\<lambda>x y. f x = y) xs ys"
  by (induction xs arbitrary: ys) (auto simp: list_all2_Cons1)

lemma list_all2_cong_right:
  assumes "\<And>x y. y \<in> set ys \<Longrightarrow> P x y \<longleftrightarrow> Q x y"
  shows "list_all2 P xs ys \<longleftrightarrow> list_all2 Q xs ys"
  using assms by (induction xs arbitrary: ys) (auto simp: list_all2_Cons1)

lemma toLowerCase_same_ignoring_case:
  assumes "set k \<subseteq> set ''abcdefghijklmnopqrstuvwxyz''"
  shows "toLowerCase part = k \<longleftrightarrow> same_ignoring_case part k"
proof -
  have "list_all2 (\<lambda>c l. lower_char c = l) part k \<longleftrightarrow>
        list_all2 (\<lambda>c l. c = l \<or> c = upper_letter l) part k"
  proof (rule list_all2_cong_right)
    fix c l assume "l \<in> set k"
    with assms have "l \<in> set ''abcdefghijklmnopqrstuvwxyz''" by blast
    then show "lower_char c = l \<longleftrightarrow> c = l \<or> c = upper_letter l"
      by (rule lower_char_letter)
  qed
  then show ?thesis
    by (simp add: toLowerCase_def map_eq_list_all2 same_ignoring_case_def)
qed

lemma keywords_small_letters:
  "k \<in> set analyticalKeywords \<Longrightarrow> set k \<subseteq> set ''abcdefghijklmnopqrstuvwxyz''"
  by (auto simp: analyticalKeywords_def)

lemma keyword_occurs:
  assumes "k \<in> set analyticalKeywords"
  shows "includes_str (toLowerCase t) k \<longleftrightarrow> occurs_ignoring_case t k"
  unfolding includes_str_lower occurs_ignoring_case_def
  using toLowerCase_same_ignoring_case [OF keywords_small_letters [OF assms]] by simp

lemma distinct_analyticalKeywords: "distinct analyticalKeywords"
  by (simp add: analyticalKeywords_def)

lemma length_analyticalKeywords: "length analyticalKeywords = 5"
  by (simp add: analyticalKeywords_def)

lemma structure_iff:
  "(includes_str t [nl] \<or> includes_str t ''-'' \<or> includes_str t ''1.'') \<longleftrightarrow>
   (nl \<in> set t \<or> CHR ''-'' \<in> set t \<or> (\<exists>pre post. t = pre @ ''1.'' @ post))"
  by (simp only: includes_str_char includes_str_iff [of t "''1.''"])

lemma found_card:
  "length (filter (\<lambda>k. includes_str (toLowerCase t) k) analyticalKeywords) =
   card {k \<in> set analyticalKeywords. occurs_ignoring_case t k}"
proof -
  have "{x. includes_str (toLowerCase t) x} \<inter> set analyticalKeywords =
        {k \<in> set analyticalKeywords. occurs_ignoring_case t k}"
    using keyword_occurs by blast
  then show ?thesis
    using distinct_length_filter [OF distinct_analyticalKeywords, of "includes_str (toLowerCase t)"]
    by simp
qed

lemma found_le: "length (filter P analyticalKeywords) \<le> 5"
  using length_filter_le [of P analyticalKeywords] by (simp add: length_analyticalKeywords)

lemma calc_unfold:
  "calculateConfidence t =
     rounded_sum (500 < length t) (1000 < length t)
       (includes_str t [nl] \<or> includes_str t ''-'' \<or> includes_str t ''1.'')
       (length (filter (\<lambda>k. includes_str (toLowerCase t) k) analyticalKeywords))"
  by (simp add: calculateConfidence_def rounded_sum_def Let_def)

lemma calc_formula:
  "calculateConfidence t =
     rounded_sum (500 < length t) (1000 < length t)
       (nl \<in> set t \<or> CHR ''-'' \<in> set t \<or> (\<exists>pre post. t = pre @ ''1.'' @ post))
       (card {k \<in> set analyticalKeywords. occurs_ignoring_case t k})"
  unfolding calc_unfold structure_iff found_card by (rule refl)

lemma card_found_le: "card {k \<in> set analyticalKeywords. occurs_ignoring_case t k} \<le> 5"
  using found_le [of "\<lambda>k. includes_str (toLowerCase t) k"] by (simp only: found_card)

lemma calc_all:
  assumes "1000 < length t"
    and "nl \<in> set t \<or> CHR ''-'' \<in> set t \<or> (\<exists>pre post. t = pre @ ''1.'' @ post)"
    and "\<forall>k \<in> set analyticalKeywords. occurs_ignoring_case t k"
  shows "value_of (calculateConfidence t) = value_of (double_literal 95 100)"
proof -
  have "{k \<in> set analyticalKeywords. occurs_ignoring_case t k} = set analyticalKeywords"
    using assms(3) by blast
  then have "card {k \<in> set analyticalKeywords. occurs_ignoring_case t k} = 5"
    by (simp add: distinct_card distinct_analyticalKeywords length_analyticalKeywords)
  moreover have "500 < length t" using assms(1) by simp
  ultimately have "calculateConfidence t = rounded_sum True True True 5"
    using assms(1,2) by (simp add: calc_formula)
  moreover have "tenths True True True = 3" by (simp add: tenths_def)
  ultimately have "calculateConfidence t = tenths_and_keywords 3 5"
    by (simp only: rounded_sum_tenths)
  then show ?thesis
    by (simp add: table_all literal_095)
qed

lemma calc_empty: "value_of (calculateConfidence []) = 1 / 2"
proof -
  have "calculateConfidence [] = rounded_sum False False False 0"
    by (simp add: calc_unfold analyticalKeywords_def toLowerCase_def)
  moreover have "tenths False False False = 0" by (simp add: tenths_def)
  ultimately have "calculateConfidence [] = tenths_and_keywords 0 0"
    by (simp only: rounded_sum_tenths)
  then show ?thesis
    by (simp add: table_all)
qed

text \<open>
  Claim C6, amended. For every response text the confidence is a double: it starts at 0.5;
  0.1 is added when the text is longer than 500 characters, 0.1 again when it is longer than
  1000, 0.1 when it contains a newline, a \<open>-\<close> or the substring \<open>1.\<close>; then 0.05 times the
  number of the five keywords that occur in the text case-insensitively as a substring is
  added; every sum and the product are rounded to a double, in this order; the result is
  the smaller of that sum and 0.95. It differs from the same rule in exact decimal
  arithmetic by less than \<open>1 / 10 ^ 15\<close> and need not be equal to it. It lies between 0.5
  and the double 0.95, which is not above the decimal 0.95. A text longer than 1000
  characters with a structure marker and all five keywords gets exactly the double 0.95;
  the empty text gets exactly 0.5.
\<close>

theorem calculateConfidence_formula:
  "calculateConfidence t =
     rounded_sum (500 < length t) (1000 < length t)
       (nl \<in> set t \<or> CHR ''-'' \<in> set t \<or> (\<exists>pre post. t = pre @ ''1.'' @ post))
       (card {k \<in> set analyticalKeywords. occurs_ignoring_case t k})
   \<and> \<bar>value_of (calculateConfidence t) -
        exact_sum (500 < length t) (1000 < length t)
          (nl \<in> set t \<or> CHR ''-'' \<in> set t \<or> (\<exists>pre post. t = pre @ ''1.'' @ post))
          (card {k \<in> set analyticalKeywords. occurs_ignoring_case t k})\<bar> < 1 / 10 ^ 15
   \<and> 1 / 2 \<le> value_of (calculateConfidence t)
   \<and> value_of (calculateConfidence t) \<le> value_of (double_literal 95 100)
   \<and> value_of (double_literal 95 100) \<le> 95 / 100
   \<and> (1000 < length t
        \<and> (nl \<in> set t \<or> CHR ''-'' \<in> set t \<or> (\<exists>pre post. t = pre @ ''1.'' @ post))
        \<and> (\<forall>k \<in> set analyticalKeywords. occurs_ignoring_case t k)
      \<longrightarrow> value_of (calculateConfidence t) = value_of (double_literal 95 100))
   \<and> value_of (calculateConfidence []) = 1 / 2"
proof -
  let ?a = "500 < length t" and ?b = "1000 < length t"
  let ?c = "nl \<in> set t \<or> CHR ''-'' \<in> set t \<or> (\<exists>pre post. t = pre @ ''1.'' @ post)"
  let ?n = "card {k \<in> set analyticalKeywords. occurs_ignoring_case t k}"
  have f: "calculateConfidence t = rounded_sum ?a ?b ?c ?n" by (rule calc_formula)
  from rounded_sum_props [OF card_found_le [of t], of ?a ?b ?c]
  have p: "1 / 2 \<le> value_of (rounded_sum ?a ?b ?c ?n)"
    "value_of (rounded_sum ?a ?b ?c ?n) \<le> value_of (double_literal 95 100)"
    "\<bar>value_of (rounded_sum ?a ?b ?c ?n) - exact_sum ?a ?b ?c ?n\<bar> < 1 / 10 ^ 15"
    by blast+
  have l: "value_of (double_literal 95 100) \<le> 95 / 100"
    by (simp add: literal_095)
  have s: "?b \<and> ?c \<and> (\<forall>k \<in> set analyticalKeywords. occurs_ignoring_case t k)
      \<longrightarrow> value_of (calculateConfidence t) = value_of (double_literal 95 100)"
    using calc_all by blast
  from f p l s calc_empty show ?thesis
    by (simp only: simp_thms)
qed

lemma literal_055: "double_literal 55 100 = F64 4953959590107546 (-53)"
  by (simp add: double_literal_def round53_def Let_def)

lemma literal_06: "double_literal 6 10 = F64 5404319552844595 (-53)"
  by (simp add: double_literal_def round53_def Let_def)

lemma literal_065: "double_literal 65 100 = F64 5854679515581645 (-53)"
  by (simp add: double_literal_def round53_def Let_def)

lemma literal_08: "double_literal 8 10 = F64 7205759403792794 (-53)"
  by (simp add: double_literal_def round53_def Let_def)

lemma includes_str_subset: "includes_str s k \<Longrightarrow> set k \<subseteq> set s"
  unfolding includes_str_iff by auto

theorem calculateConfidence_formula_witness:
  "value_of (calculateConfidence
      (''Analysis - insight, PATTERN, recommendation, conclusion'' @ replicate 1000 (CHR ''x'')))
     = value_of (double_literal 95 100)
   \<and> value_of (calculateConfidence ''CONCLUSION'') = value_of (double_literal 55 100)"
proof -
  let ?a = "''Analysis - insight, PATTERN, recommendation, conclusion''"
  let ?t = "?a @ replicate 1000 (CHR ''x'')"
  have len: "1000 < length ?t" by simp
  have st: "nl \<in> set ?t \<or> CHR ''-'' \<in> set ?t \<or> (\<exists>pre post. ?t = pre @ ''1.'' @ post)" by simp
  have "\<forall>k \<in> set analyticalKeywords. includes_str (toLowerCase ?a) k"
    by (simp add: analyticalKeywords_def toLowerCase_def lower_char_def char_of_eq_iff)
  moreover have "toLowerCase ?t = toLowerCase ?a @ toLowerCase (replicate 1000 (CHR ''x''))"
    by (simp only: toLowerCase_def map_append)
  ultimately have "\<forall>k \<in> set analyticalKeywords. includes_str (toLowerCase ?t) k"
    using includes_str_appendI by metis
  then have kw: "\<forall>k \<in> set analyticalKeywords. occurs_ignoring_case ?t k"
    using keyword_occurs by blast
  from calculateConfidence_formula [of ?t] len st kw
  have saturated: "value_of (calculateConfidence ?t) = value_of (double_literal 95 100)"
    by blast
  let ?u = "''CONCLUSION''"
  have "\<not> (includes_str ?u [nl] \<or> includes_str ?u ''-'' \<or> includes_str ?u ''1.'')"
    by (simp add: nl_def)
  then have plain: "(nl \<in> set ?u \<or> CHR ''-'' \<in> set ?u \<or> (\<exists>pre post. ?u = pre @ ''1.'' @ post)) = False"
    by (simp only: structure_iff)
  have "length (filter (\<lambda>k. includes_str (toLowerCase ?u) k) analyticalKeywords) = 1"
    by (simp add: analyticalKeywords_def toLowerCase_def lower_char_def char_of_eq_iff)
  then have one: "card {k \<in> set analyticalKeywords. occurs_ignoring_case ?u k} = 1"
    by (simp only: found_card)
  have short: "(500 < length ?u) = False" "(1000 < length ?u) = False" by simp_all
  from calculateConfidence_formula [of ?u]
  have "calculateConfidence ?u = rounded_sum False False False 1"
    unfolding plain one short by blast
  moreover have "tenths False False False = 0" by (simp add: tenths_def)
  ultimately have "calculateConfidence ?u = tenths_and_keywords 0 1"
    by (simp only: rounded_sum_tenths)
  then have upper: "value_of (calculateConfidence ?u) = value_of (double_literal 55 100)"
    by (simp add: table_all literal_055)
  from saturated upper show ?thesis by blast
qed

text \<open>
  Claim C6, as stated, makes the confidence equal to the decimal sum. For a \<open>-\<close> followed
  by 1000 letters \<open>x\<close> the rule gives 0.5 + 0.1 + 0.1 + 0.1 = 0.8; the code adds doubles and
  returns 0.7999999999999999, the double just below the double 0.8.
\<close>

theorem exact_sum_counterexample:
  "value_of (calculateConfidence (CHR ''-'' # replicate 1000 (CHR ''x''))) = 7205759403792793 / 2 ^ 53
   \<and> exact_sum True True True 0 = 8 / 10
   \<and> value_of (calculateConfidence (CHR ''-'' # replicate 1000 (CHR ''x''))) \<noteq> 8 / 10
   \<and> value_of (calculateConfidence (CHR ''-'' # replicate 1000 (CHR ''x''))) \<noteq>
       value_of (double_literal 8 10)"
proof -
  let ?t = "CHR ''-'' # replicate 1000 (CHR ''x'')"
  have low: "toLowerCase ?t = ?t"
    by (simp add: toLowerCase_def lower_char_def)
  have "\<not> includes_str ?t k" if "k \<in> set analyticalKeywords" for k
  proof
    assume "includes_str ?t k"
    then have "set k \<subseteq> set ?t" by (rule includes_str_subset)
    moreover from that have "CHR ''n'' \<in> set k"
      by (auto simp: analyticalKeywords_def)
    ultimately show False by auto
  qed
  then have none: "filter (\<lambda>k. includes_str (toLowerCase ?t) k) analyticalKeywords = []"
    unfolding low by (simp add: filter_empty_conv)
  have st: "includes_str ?t ''-''" by (simp add: includes_str_char)
  have "calculateConfidence ?t = rounded_sum True True True 0"
    unfolding calc_unfold none using st by simp
  moreover have "tenths True True True = 3" by (simp add: tenths_def)
  ultimately have "calculateConfidence ?t = tenths_and_keywords 3 0"
    by (simp only: rounded_sum_tenths)
  then have v: "value_of (calculateConfidence ?t) = 7205759403792793 / 2 ^ 53"
    by (simp add: table_all)
  have e: "exact_sum True True True 0 = 8 / 10"
    by (simp add: exact_sum_def)
  show ?thesis
    unfolding v by (simp add: e literal_08)
qed

lemma scenario_sum:
  "calculateConfidence (''- insight one'' @ [nl] @ ''- insight two'') = tenths_and_keywords 1 1"
proof -
  have "calculateConfidence (''- insight one'' @ [nl] @ ''- insight two'') =
          rounded_sum False False True 1"
    by (simp add: calc_unfold nl_def analyticalKeywords_def toLowerCase_def lower_char_def
        char_of_eq_iff)
  moreover have "tenths False False True = 1" by (simp add: tenths_def)
  ultimately show ?thesis by (simp only: rounded_sum_tenths)
qed

text \<open>
  Claim C3, as stated, gives the scenario text the confidence 0.6. The text contains the
  keyword \<open>insight\<close>, so the keyword bonus applies and the value is not 0.6.
\<close>

theorem scenario_confidence_counterexample:
  "value_of (calculateConfidence (''- insight one'' @ [nl] @ ''- insight two'')) \<noteq> 6 / 10
   \<and> value_of (calculateConfidence (''- insight one'' @ [nl] @ ''- insight two'')) \<noteq>
       value_of (double_literal 6 10)"
  unfolding scenario_sum by (simp add: table_all literal_06)

text \<open>
  Claim C3, amended. For the completion text \<open>- insight one\<close>, newline, \<open>- insight two\<close>
  the scorer gives the insights \<open>insight one\<close> and \<open>insight two\<close> and the confidence 0.65,
  the double that the literal 0.65 denotes: the base 0.5, the structure bonus 0.1 and 0.05
  for the keyword \<open>insight\<close>; there is no length bonus.
\<close>

theorem scenario_insights_and_confidence:
  "extractInsights (''- insight one'' @ [nl] @ ''- insight two'') = [''insight one'', ''insight two'']
   \<and> value_of (calculateConfidence (''- insight one'' @ [nl] @ ''- insight two'')) =
       value_of (double_literal 65 100)
   \<and> \<bar>value_of (double_literal 65 100) - 65 / 100\<bar> < 1 / 10 ^ 16"
proof (intro conjI)
  show "extractInsights (''- insight one'' @ [nl] @ ''- insight two'') = [''insight one'', ''insight two'']"
    by (simp add: extractInsights_def push_insight_def trim_def is_space_def nl_def
        replace_marker_def test_num_dot_def)
  show "value_of (calculateConfidence (''- insight one'' @ [nl] @ ''- insight two'')) =
       value_of (double_literal 65 100)"
    unfolding scenario_sum by (simp add: table_all literal_065)
  show "\<bar>value_of (double_literal 65 100) - 65 / 100\<bar> < 1 / 10 ^ 16"
    by (simp add: literal_065)
qed

subsection \<open>Insight extraction\<close>

lemma foldl_push_insight:
  "foldl push_insight acc ls =
   acc @ map (\<lambda>l. replace_marker (trim l))
            (filter (\<lambda>l. startsWith (trim l) ''-'' \<or> startsWith (trim l) ''*'' \<or> test_num_dot (trim l)) ls)"
  by (induction ls arbitrary: acc) (simp_all add: push_insight_def Let_def)

lemma marker_line_code:
  "marker_line l \<longleftrightarrow> startsWith l ''-'' \<or> startsWith l ''*'' \<or> test_num_dot l"
proof (cases l)
  case Nil
  then show ?thesis by (simp add: marker_line_def test_num_dot_def)
next
  case (Cons c cs)
  have nd: "\<not> is_digit (CHR ''-'')" "\<not> is_digit (CHR ''*'')"
    by (simp_all add: is_digit_def)
  show ?thesis
  proof (cases "is_digit c")
    case True
    with nd have "c \<noteq> CHR ''-''" "c \<noteq> CHR ''*''" by auto
    with True Cons show ?thesis
      by (simp add: marker_line_def test_num_dot_def)
  next
    case False
    with Cons show ?thesis
      by (auto simp: marker_line_def test_num_dot_def)
  qed
qed

lemma insights_of_lines:
  "foldl push_insight [] (filter (\<lambda>line. trim line \<noteq> []) (split_nl t)) =
   map replace_marker (filter marker_line (nonblank_lines t))"
  by (simp add: foldl_push_insight nonblank_lines_def marker_line_code filter_map o_def)


lemma extract_unfold:
  "extractInsights t =
     (if filter marker_line (nonblank_lines t) = []
      then take 5 (filter (\<lambda>p. 50 < length (trim p)) (split_nlnl t))
      else take 5 (map replace_marker (filter marker_line (nonblank_lines t))))"
  unfolding extractInsights_def Let_def insights_of_lines by simp

lemma replace_marker_dash: "replace_marker (CHR ''-'' # rest) = dropWhile is_space rest"
  by (simp add: replace_marker_def)

lemma replace_marker_star: "replace_marker (CHR ''*'' # rest) = dropWhile is_space rest"
  by (simp add: replace_marker_def)

lemma replace_marker_numbered:
  assumes "ds \<noteq> []" and "\<forall>d \<in> set ds. is_digit d"
  shows "replace_marker (ds @ CHR ''.'' # rest) = dropWhile is_space rest"
proof -
  have nd: "\<not> is_digit (CHR ''.'')" "\<not> is_digit (CHR ''-'')" "\<not> is_digit (CHR ''*'')"
    by (simp_all add: is_digit_def)
  from assms obtain d ds' where ds: "ds = d # ds'" and d: "is_digit d"
    by (cases ds) auto
  from d nd have "d \<noteq> CHR ''-''" "d \<noteq> CHR ''*''" by auto
  moreover have "takeWhile is_digit (ds @ CHR ''.'' # rest) = ds"
    using assms(2) nd(1) by (simp add: takeWhile_append2 takeWhile_tail)
  moreover have "dropWhile is_digit (ds @ CHR ''.'' # rest) = CHR ''.'' # rest"
    using assms(2) nd(1) by (simp add: dropWhile_append2)
  ultimately show ?thesis
    using ds assms(1) by (simp add: replace_marker_def test_num_dot_def del: takeWhile.simps dropWhile.simps split: list.splits)
qed

text \<open>
  Claim C7, amended. Take the lines of the text, trimmed, without the blank ones. When at
  least one of them begins with \<open>-\<close>, \<open>*\<close> or digits and a dot, the insights are exactly
  those lines, in order, each without its marker and the white space after it, and at most
  the first five; the paragraphs play no part. When there is no such line, the insights are
  the pieces of the text between occurrences of two newlines in a row whose length after
  trimming exceeds 50, untrimmed, at most the first five. A text with three marker lines
  gives exactly those three lines, whatever paragraphs it has.
\<close>

theorem extractInsights_bullets_or_paragraphs:
  "(filter marker_line (nonblank_lines t) \<noteq> [] \<longrightarrow>
      extractInsights t = take 5 (map replace_marker (filter marker_line (nonblank_lines t))))
   \<and> (filter marker_line (nonblank_lines t) = [] \<longrightarrow>
      extractInsights t = take 5 (filter (\<lambda>p. 50 < length (trim p)) (split_nlnl t)))
   \<and> (length (filter marker_line (nonblank_lines t)) = 3 \<longrightarrow>
      extractInsights t = map replace_marker (filter marker_line (nonblank_lines t)))"
proof (intro conjI impI)
  assume "filter marker_line (nonblank_lines t) \<noteq> []"
  then show "extractInsights t = take 5 (map replace_marker (filter marker_line (nonblank_lines t)))"
    by (simp add: extract_unfold)
next
  assume "filter marker_line (nonblank_lines t) = []"
  then show "extractInsights t = take 5 (filter (\<lambda>p. 50 < length (trim p)) (split_nlnl t))"
    by (simp add: extract_unfold)
next
  assume three: "length (filter marker_line (nonblank_lines t)) = 3"
  then have "filter marker_line (nonblank_lines t) \<noteq> []" by auto
  with three show "extractInsights t = map replace_marker (filter marker_line (nonblank_lines t))"
    by (simp add: extract_unfold)
qed

lemma sample_marked:
  "filter marker_line (nonblank_lines sample_response) =
     [''- first finding'', ''* second finding'', ''12. third finding'']"
  by (simp add: sample_response_def nonblank_lines_def marker_line_def trim_def is_space_def
      is_digit_def nl_def)

theorem extractInsights_bullets_or_paragraphs_witness:
  "extractInsights sample_response = [''first finding'', ''second finding'', ''third finding'']
   \<and> extractInsights plain_response =
       [''The uploaded records cover three regions and two product families.'']"
proof -
  have "length (filter marker_line (nonblank_lines sample_response)) = 3"
    by (simp add: sample_marked)
  with extractInsights_bullets_or_paragraphs [of sample_response]
  have "extractInsights sample_response =
          map replace_marker (filter marker_line (nonblank_lines sample_response))"
    by blast
  then have bullets: "extractInsights sample_response =
      [''first finding'', ''second finding'', ''third finding'']"
    by (simp add: sample_marked replace_marker_def test_num_dot_def is_space_def is_digit_def)
  have "filter marker_line (nonblank_lines plain_response) = []"
    by (simp add: plain_response_def nonblank_lines_def marker_line_def trim_def is_space_def
        is_digit_def nl_def)
  with extractInsights_bullets_or_paragraphs [of plain_response]
  have "extractInsights plain_response =
          take 5 (filter (\<lambda>p. 50 < length (trim p)) (split_nlnl plain_response))"
    by blast
  then have paragraphs: "extractInsights plain_response =
      [''The uploaded records cover three regions and two product families.'']"
    by (simp add: plain_response_def trim_def is_space_def nl_def)
  from bullets paragraphs show ?thesis by blast
qed

lemma trim_padded: "trim (CHR ''x'' # replicate n (CHR '' '')) = ''x''"
proof -
  have "dropWhile is_space (replicate n (CHR '' '') @ ''x'') = ''x''"
    by (induction n) (simp_all add: is_space_def)
  then show ?thesis
    by (simp add: trim_def is_space_def)
qed

lemma split_nl_padded: "split_nl (CHR ''x'' # replicate n (CHR '' '')) = [CHR ''x'' # replicate n (CHR '' '')]"
proof -
  have "split_nl (replicate n (CHR '' '')) = [replicate n (CHR '' '')]"
    by (induction n) (simp_all add: nl_def)
  then show ?thesis by (simp add: nl_def)
qed

lemma split_nlnl_padded: "split_nlnl (CHR ''x'' # replicate n (CHR '' '')) = [CHR ''x'' # replicate n (CHR '' '')]"
proof -
  have "split_nlnl (CHR '' '' # replicate n (CHR '' '')) = [CHR '' '' # replicate n (CHR '' '')]" for n
    by (induction n) (simp_all add: nl_def)
  then show ?thesis by (cases n) (simp_all add: nl_def)
qed

text \<open>
  Claim C7, as stated, keeps the paragraphs whose length exceeds 50. The code measures
  the trimmed paragraph: the letter \<open>x\<close> followed by 50 spaces has no marker line and is
  one paragraph of length 51, and the code returns no insight for it.
\<close>

theorem paragraph_raw_length_counterexample:
  "filter marker_line (nonblank_lines (CHR ''x'' # replicate 50 (CHR '' ''))) = []
   \<and> extractInsights (CHR ''x'' # replicate 50 (CHR '' '')) \<noteq>
       take 5 (filter (\<lambda>p. 50 < length p) (split_nlnl (CHR ''x'' # replicate 50 (CHR '' ''))))"
proof -
  let ?T = "CHR ''x'' # replicate 50 (CHR '' '')"
  have lines: "nonblank_lines ?T = [''x'']"
    unfolding nonblank_lines_def split_nl_padded by (simp add: trim_padded)
  have none: "filter marker_line (nonblank_lines ?T) = []"
    unfolding lines by (simp add: marker_line_def is_digit_def)
  have paras: "filter (\<lambda>p. 50 < length (trim p)) (split_nlnl ?T) = []"
    unfolding split_nlnl_padded by (simp add: trim_padded)
  have code: "extractInsights ?T = []"
    unfolding extract_unfold none paras by simp
  have "filter (\<lambda>p. 50 < length p) (split_nlnl ?T) = [?T]"
    unfolding split_nlnl_padded by simp
  then have claimed: "take 5 (filter (\<lambda>p. 50 < length p) (split_nlnl ?T)) = [?T]"
    by simp
  show ?thesis
    unfolding code claimed using none by simp
qed

section \<open>Properties of the retry loop\<close>

declare retry_loop.simps [simp del]

lemma first_rate_limit_throws_type_error:
  assumes "upstream 0 = Rejected error" and "err_status error = Some 429"
  shows "run_completion upstream =
           (Inl const_assignment_error,
            \<lparr>retryCount = 1, retryDelay = Const_binding 2000, calls = 1, sleeps = [2000]\<rparr>)"
  using assms
  by (simp add: run_completion_def initial_runner_state_def maxRetries_def
      retry_loop.simps [of upstream "\<lparr>retryCount = 0, retryDelay = Const_binding 2000, calls = 0, sleeps = []\<rparr>"])

lemma other_error_aborts:
  assumes "upstream 0 = Rejected error" and "err_status error \<noteq> Some 429"
  shows "run_completion upstream =
           (Inl error, \<lparr>retryCount = 0, retryDelay = Const_binding 2000, calls = 1, sleeps = []\<rparr>)"
  using assms
  by (simp add: run_completion_def initial_runner_state_def maxRetries_def
      retry_loop.simps [of upstream "\<lparr>retryCount = 0, retryDelay = Const_binding 2000, calls = 0, sleeps = []\<rparr>"])

lemma first_success_returns:
  assumes "upstream 0 = Resolved completion"
  shows "run_completion upstream =
           (Inr completion, \<lparr>retryCount = 0, retryDelay = Const_binding 2000, calls = 1, sleeps = []\<rparr>)"
  using assms
  by (simp add: run_completion_def initial_runner_state_def maxRetries_def
      retry_loop.simps [of upstream "\<lparr>retryCount = 0, retryDelay = Const_binding 2000, calls = 0, sleeps = []\<rparr>"])

lemma let_delay_always_rate_limited:
  assumes "\<forall>n < 3. \<exists>e. upstream n = Rejected e \<and> err_status e = Some 429"
  shows "\<exists>e. upstream 2 = Rejected e \<and>
           retry_loop upstream (initial_runner_state\<lparr>retryDelay := Let_binding 2000\<rparr>) =
           (Inl e, \<lparr>retryCount = 3, retryDelay = Let_binding 8000, calls = 3, sleeps = [2000, 4000]\<rparr>)"
proof -
  from assms obtain e0 where u0: "upstream 0 = Rejected e0" "err_status e0 = Some 429"
    by force
  from assms have "\<exists>e. upstream 1 = Rejected e \<and> err_status e = Some 429"
    by simp
  then obtain e1 where u1: "upstream (Suc 0) = Rejected e1" "err_status e1 = Some 429"
    by auto
  from assms have "\<exists>e. upstream 2 = Rejected e \<and> err_status e = Some 429"
    by simp
  then obtain e2 where u2: "upstream 2 = Rejected e2" "err_status e2 = Some 429"
    by auto
  let ?s0 = "\<lparr>retryCount = 0, retryDelay = Let_binding 2000, calls = 0, sleeps = []\<rparr>"
  let ?s1 = "\<lparr>retryCount = Suc 0, retryDelay = Let_binding 4000, calls = Suc 0, sleeps = [2000]\<rparr>"
  let ?s2 = "\<lparr>retryCount = 2, retryDelay = Let_binding 8000, calls = 2, sleeps = [2000, 4000]\<rparr>"
  let ?s3 = "\<lparr>retryCount = 3, retryDelay = Let_binding 8000, calls = 3, sleeps = [2000, 4000]\<rparr>"
  have a: "retry_loop upstream ?s0 = retry_loop upstream ?s1"
    by (simp add: retry_loop.simps [of upstream ?s0] maxRetries_def u0)
  have "retry_loop upstream ?s1 =
          retry_loop upstream \<lparr>retryCount = Suc (Suc 0), retryDelay = Let_binding 8000,
            calls = Suc (Suc 0), sleeps = [2000, 4000]\<rparr>"
    by (simp add: retry_loop.simps [of upstream ?s1] maxRetries_def u1)
  then have b: "retry_loop upstream ?s1 = retry_loop upstream ?s2"
    by (simp only: numeral_2_eq_2)
  have c: "retry_loop upstream ?s2 = (Inl e2, ?s3)"
    by (simp add: retry_loop.simps [of upstream ?s2] maxRetries_def u2)
  show ?thesis
    using a b c u2 by (simp add: initial_runner_state_def)
qed

lemma let_delay_twice_then_success:
  "retry_loop twice_then_success (initial_runner_state\<lparr>retryDelay := Let_binding 2000\<rparr>) =
     (Inr ''ok'', \<lparr>retryCount = 2, retryDelay = Let_binding 8000, calls = 3, sleeps = [2000, 4000]\<rparr>)"
proof -
  let ?s0 = "\<lparr>retryCount = 0, retryDelay = Let_binding 2000, calls = 0, sleeps = []\<rparr>"
  let ?s1 = "\<lparr>retryCount = Suc 0, retryDelay = Let_binding 4000, calls = Suc 0, sleeps = [2000]\<rparr>"
  let ?s2 = "\<lparr>retryCount = 2, retryDelay = Let_binding 8000, calls = 2, sleeps = [2000, 4000]\<rparr>"
  let ?s3 = "\<lparr>retryCount = 2, retryDelay = Let_binding 8000, calls = 3, sleeps = [2000, 4000]\<rparr>"
  have a: "retry_loop twice_then_success ?s0 = retry_loop twice_then_success ?s1"
    by (simp add: retry_loop.simps [of twice_then_success ?s0] maxRetries_def
        twice_then_success_def rate_limit_error_def)
  have "retry_loop twice_then_success ?s1 =
          retry_loop twice_then_success \<lparr>retryCount = Suc (Suc 0), retryDelay = Let_binding 8000,
            calls = Suc (Suc 0), sleeps = [2000, 4000]\<rparr>"
    by (simp add: retry_loop.simps [of twice_then_success ?s1] maxRetries_def
        twice_then_success_def rate_limit_error_def)
  then have b: "retry_loop twice_then_success ?s1 = retry_loop twice_then_success ?s2"
    by (simp only: numeral_2_eq_2)
  have c: "retry_loop twice_then_success ?s2 = (Inr ''ok'', ?s3)"
    by (simp add: retry_loop.simps [of twice_then_success ?s2] maxRetries_def
        twice_then_success_def)
  show ?thesis
    using a b c by (simp add: initial_runner_state_def)
qed

text \<open>
  Claim C1 says that three attempts are made with sleeps of 2000 and 4000 ms, and that two
  rate limits followed by a success give the completion. The code declares \<open>retryDelay\<close>
  with \<open>const\<close>: after the first rate-limit error it sleeps 2000 ms, and the doubling
  \<open>retryDelay *= 2\<close> throws. Both scenario upstreams end after one request with that
  TypeError, which the handler reports with status 500.
\<close>

theorem retry_loop_const_delay_fails:
  "run_completion always_rate_limited =
     (Inl const_assignment_error,
      \<lparr>retryCount = 1, retryDelay = Const_binding 2000, calls = 1, sleeps = [2000]\<rparr>)
   \<and> run_completion twice_then_success =
     (Inl const_assignment_error,
      \<lparr>retryCount = 1, retryDelay = Const_binding 2000, calls = 1, sleeps = [2000]\<rparr>)
   \<and> test_error_response const_assignment_error = (500, ''Failed to test prompt with ChatGPT'')"
proof (intro conjI)
  show "run_completion always_rate_limited =
     (Inl const_assignment_error,
      \<lparr>retryCount = 1, retryDelay = Const_binding 2000, calls = 1, sleeps = [2000]\<rparr>)"
    by (rule first_rate_limit_throws_type_error [of _ rate_limit_error])
       (simp_all add: always_rate_limited_def rate_limit_error_def)
  show "run_completion twice_then_success =
     (Inl const_assignment_error,
      \<lparr>retryCount = 1, retryDelay = Const_binding 2000, calls = 1, sleeps = [2000]\<rparr>)"
    by (rule first_rate_limit_throws_type_error [of _ rate_limit_error])
       (simp_all add: twice_then_success_def rate_limit_error_def)
  show "test_error_response const_assignment_error = (500, ''Failed to test prompt with ChatGPT'')"
    by (simp add: test_error_response_def const_assignment_error_def)
qed

section \<open>Properties of the prompt compiler\<close>

lemma append_question_acc:
  "append_question ex ans p q = p @ append_question ex ans [] q"
  by (simp add: append_question_def split: option.splits)

lemma foldl_append_question:
  "foldl (append_question ex ans) p qs = p @ concat (map (append_question ex ans []) qs)"
proof (induction qs arbitrary: p)
  case Nil
  then show ?case by simp
next
  case (Cons q qs)
  have "foldl (append_question ex ans) p (q # qs) =
        foldl (append_question ex ans) (append_question ex ans p q) qs"
    by simp
  also have "\<dots> = append_question ex ans p q @ concat (map (append_question ex ans []) qs)"
    by (rule Cons.IH)
  also have "\<dots> = p @ append_question ex ans [] q @ concat (map (append_question ex ans []) qs)"
    by (subst append_question_acc) simp
  finally show ?case by simp
qed

lemma generatePrompt_structure:
  "generatePrompt n qs ex ans =
     preamble n @ concat (map (append_question ex ans []) qs) @ trailing_instruction"
  by (simp add: generatePrompt_def Let_def foldl_append_question preamble_def trailing_instruction_def)

lemma excluded_contributes_nothing:
  "q_id (q :: question) \<in> ex \<Longrightarrow> append_question ex ans [] q = []"
  by (simp add: append_question_def)

lemma answered_contributes_line:
  assumes "q_id (q :: question) \<notin> ex" and "ans (q_id q) = Some a" and "nonempty_answer a"
  shows "append_question ex ans [] q = question_line q a"
  using assms by (cases a) (simp_all add: append_question_def question_line_def)

lemma unanswered_contributes_nothing:
  assumes "ans (q_id (q :: question)) = None \<or> ans (q_id q) = Some (Text [])"
  shows "append_question ex ans [] q = []"
  using assms by (auto simp: append_question_def split: option.splits)

lemma unanswered_question_omitted:
  assumes "ans (q_id q) = None \<or> ans (q_id q) = Some (Text [])"
  shows "generatePrompt n (qs1 @ q # qs2) ex ans = generatePrompt n (qs1 @ qs2) ex ans"
  using unanswered_contributes_nothing [of ans q ex] assms
  by (simp add: generatePrompt_structure)

text \<open>
  Claim C5. For every name, list of questions, exclusion set and answers, the generated
  prompt is the fixed preamble, then what each question contributes, in order, then the
  fixed trailing instruction. An excluded question contributes nothing. A question that is
  not excluded and has a non-empty answer contributes exactly one line, \<open>- text: answer\<close>
  and a newline, a list answer being joined with a comma and a space. The function is
  total: it returns a string on every input.
\<close>

theorem generatePrompt_lines:
  "generatePrompt promptName questions excludedQuestions answers =
     preamble promptName
       @ concat (map (append_question excludedQuestions answers []) questions)
       @ trailing_instruction
   \<and> (\<forall>q \<in> set questions. q_id q \<in> excludedQuestions \<longrightarrow>
         append_question excludedQuestions answers [] q = [])
   \<and> (\<forall>q \<in> set questions. \<forall>a.
         q_id q \<notin> excludedQuestions \<and> answers (q_id q) = Some a \<and> nonempty_answer a \<longrightarrow>
         append_question excludedQuestions answers [] q = question_line q a)"
proof (intro conjI ballI allI impI)
  show "generatePrompt promptName questions excludedQuestions answers =
     preamble promptName
       @ concat (map (append_question excludedQuestions answers []) questions)
       @ trailing_instruction"
    by (rule generatePrompt_structure)
next
  fix q :: question
  assume "q_id q \<in> excludedQuestions"
  then show "append_question excludedQuestions answers [] q = []"
    by (rule excluded_contributes_nothing)
next
  fix q :: question and a
  assume "q_id q \<notin> excludedQuestions \<and> answers (q_id q) = Some a \<and> nonempty_answer a"
  then show "append_question excludedQuestions answers [] q = question_line q a"
    by (simp add: answered_contributes_line)
qed

theorem generatePrompt_lines_witness:
  "generatePrompt ''ICP'' sample_questions {''q2''} sample_answers =
     preamble ''ICP'' @ ''- Market: B2B'' @ [nl] @ ''- Channels: web, retail'' @ [nl]
       @ trailing_instruction"
proof -
  let ?q1 = "sample_question ''q1'' ''Market'' text_type"
  let ?q2 = "sample_question ''q2'' ''Budget'' text_type"
  let ?q3 = "sample_question ''q3'' ''Channels'' multiselect_type"
  let ?q4 = "sample_question ''q4'' ''Region'' select_type"
  let ?line = "append_question {''q2''} sample_answers []"
  note inst = generatePrompt_lines [of "''ICP''" sample_questions "{''q2''}" sample_answers]
  from inst have shape: "generatePrompt ''ICP'' sample_questions {''q2''} sample_answers =
     preamble ''ICP'' @ concat (map ?line sample_questions) @ trailing_instruction"
    by blast
  from inst have excluded: "\<forall>q \<in> set sample_questions. q_id q \<in> {''q2''} \<longrightarrow> ?line q = []"
    by blast
  from inst have answered: "\<forall>q \<in> set sample_questions. \<forall>a.
      q_id q \<notin> {''q2''} \<and> sample_answers (q_id q) = Some a \<and> nonempty_answer a \<longrightarrow>
      ?line q = question_line q a"
    by blast
  have q2: "?line ?q2 = []"
    using excluded by (simp add: sample_questions_def sample_question_def)
  have "?q1 \<in> set sample_questions" "q_id ?q1 \<notin> {''q2''}"
    "sample_answers (q_id ?q1) = Some (Text ''B2B'')" "nonempty_answer (Text ''B2B'')"
    by (simp_all add: sample_questions_def sample_question_def sample_answers_def)
  with answered have q1: "?line ?q1 = question_line ?q1 (Text ''B2B'')"
    by blast
  have "?q3 \<in> set sample_questions" "q_id ?q3 \<notin> {''q2''}"
    "sample_answers (q_id ?q3) = Some (Choices [''web'', ''retail''])"
    "nonempty_answer (Choices [''web'', ''retail''])"
    by (simp_all add: sample_questions_def sample_question_def sample_answers_def)
  with answered have q3: "?line ?q3 = question_line ?q3 (Choices [''web'', ''retail''])"
    by blast
  have q4: "?line ?q4 = []"
    by (simp add: append_question_def sample_question_def sample_answers_def)
  have body: "concat (map ?line sample_questions) =
      question_line ?q1 (Text ''B2B'') @ question_line ?q3 (Choices [''web'', ''retail''])"
    unfolding sample_questions_def by (simp add: q1 q2 q3 q4)
  show ?thesis
    unfolding shape body by (simp add: question_line_def sample_question_def)
qed

text \<open>
  Claim C4 says that a question whose answer is the empty list has no line. The guard
  \<open>answer && answer !== ''\<close> lets every array through: a multiselect question with the
  answer \<open>[]\<close> gets the line \<open>- Channels: \<close>, and the prompt differs from the one
  without the question. (The empty string and the absent answer are omitted:
  \<open>unanswered_question_omitted\<close>.)
\<close>

theorem empty_list_answer_emits_line:
  "generatePrompt ''P'' [sample_question ''q1'' ''Channels'' multiselect_type] {} [''q1'' \<mapsto> Choices []] =
     preamble ''P'' @ ''- Channels: '' @ [nl] @ trailing_instruction
   \<and> generatePrompt ''P'' [sample_question ''q1'' ''Channels'' multiselect_type] {} [''q1'' \<mapsto> Choices []] \<noteq>
     generatePrompt ''P'' [] {} [''q1'' \<mapsto> Choices []]"
  by (simp add: generatePrompt_structure sample_question_def append_question_def)

section \<open>Properties of prompt versioning\<close>

lemma foldl_best_in: "foldl (\<lambda>best p. if p_version best < p_version p then p else best) r rs \<in> set (r # rs)"
  by (induction rs arbitrary: r) auto

lemma select_latest_in:
  assumes "select_latest name rows = Some e"
  shows "e \<in> set rows \<and> p_name e = name"
proof (cases "filter (\<lambda>p. p_name p = name) rows")
  case Nil
  with assms show ?thesis by (simp add: select_latest_def)
next
  case (Cons r rs)
  with assms have "e = foldl (\<lambda>best p. if p_version best < p_version p then p else best) r rs"
    by (simp add: select_latest_def)
  then have "e \<in> set (r # rs)" using foldl_best_in [of r rs] by simp
  then have "e \<in> set (filter (\<lambda>p. p_name p = name) rows)" using Cons by simp
  then show ?thesis by simp
qed

lemma select_latest_None:
  assumes "\<forall>p \<in> set rows. p_name p \<noteq> name"
  shows "select_latest name rows = None"
proof -
  from assms have "filter (\<lambda>p. p_name p = name) rows = []"
    by (simp add: filter_empty_conv)
  then show ?thesis by (simp add: select_latest_def)
qed

lemma select_latest_snoc:
  assumes "p_name row = name"
    and "\<And>e. select_latest name rows = Some e \<Longrightarrow> p_version e < p_version row"
  shows "select_latest name (rows @ [row]) = Some row"
proof (cases "filter (\<lambda>p. p_name p = name) rows")
  case Nil
  with assms(1) show ?thesis by (simp add: select_latest_def)
next
  case (Cons r rs)
  then have "select_latest name rows =
      Some (foldl (\<lambda>best p. if p_version best < p_version p then p else best) r rs)"
    by (simp add: select_latest_def)
  from assms(2) [OF this] Cons assms(1) show ?thesis
    by (simp add: select_latest_def)
qed

lemma createPrompt_fresh:
  assumes "np_id prompt \<notin> set (map p_id (prompts db))"
  shows "createPrompt prompt db =
           (Inr (row_of prompt (latest_id (np_name prompt) db) (latest_version (np_name prompt) db + 1)),
            db\<lparr>prompts := prompts db @
              [row_of prompt (latest_id (np_name prompt) db) (latest_version (np_name prompt) db + 1)]\<rparr>)"
proof (cases "select_latest (np_name prompt) (prompts db)")
  case None
  with assms show ?thesis
    by (simp add: createPrompt_def Let_def insert_prompt_def row_of_def latest_id_def latest_version_def)
next
  case (Some e)
  then have "p_id e \<in> set (map p_id (prompts db))"
    using select_latest_in [OF Some] by simp
  with Some assms show ?thesis
    by (simp add: createPrompt_def Let_def insert_prompt_def row_of_def latest_id_def latest_version_def)
qed

lemma latest_after_create:
  assumes "np_name prompt = name"
    and "row = row_of prompt (latest_id name db) (latest_version name db + 1)"
  shows "latest_version name (db\<lparr>prompts := prompts db @ [row]\<rparr>) = latest_version name db + 1
       \<and> latest_id name (db\<lparr>prompts := prompts db @ [row]\<rparr>) = Some (np_id prompt)"
proof -
  have "select_latest name (prompts db @ [row]) = Some row"
  proof (rule select_latest_snoc)
    show "p_name row = name" using assms by (simp add: row_of_def)
  next
    fix e assume "select_latest name (prompts db) = Some e"
    then show "p_version e < p_version row"
      using assms(2) by (simp add: row_of_def latest_version_def)
  qed
  then show ?thesis
    using assms(2) by (simp add: latest_version_def latest_id_def row_of_def)
qed

lemma create_all_chain:
  assumes "distinct (map np_id inputs)"
    and "\<forall>i \<in> set inputs. np_id i \<notin> set (map p_id (prompts db))"
    and "\<forall>i \<in> set inputs. np_name i = name"
  shows "create_all inputs db =
           (map Inr (chain_rows (latest_version name db) (latest_id name db) inputs),
            db\<lparr>prompts := prompts db @ chain_rows (latest_version name db) (latest_id name db) inputs\<rparr>)"
  using assms
proof (induction inputs arbitrary: db)
  case Nil
  then show ?case by simp
next
  case (Cons prompt rest)
  let ?row = "row_of prompt (latest_id name db) (latest_version name db + 1)"
  let ?db' = "db\<lparr>prompts := prompts db @ [?row]\<rparr>"
  from Cons.prems have nm: "np_name prompt = name" by simp
  from Cons.prems have fr: "np_id prompt \<notin> set (map p_id (prompts db))" by simp
  have step: "createPrompt prompt db = (Inr ?row, ?db')"
    using createPrompt_fresh [OF fr] nm by simp
  have d: "distinct (map np_id rest)" using Cons.prems(1) by simp
  have f: "\<forall>i \<in> set rest. np_id i \<notin> set (map p_id (prompts ?db'))"
  proof
    fix i assume i: "i \<in> set rest"
    from Cons.prems(1) have "np_id prompt \<notin> np_id ` set rest" by simp
    with i have "np_id i \<noteq> np_id prompt" by (metis imageI)
    moreover from i Cons.prems(2) have "np_id i \<notin> set (map p_id (prompts db))" by simp
    ultimately show "np_id i \<notin> set (map p_id (prompts ?db'))"
      by (simp add: row_of_def)
  qed
  have n: "\<forall>i \<in> set rest. np_name i = name" using Cons.prems(3) by simp
  have lv: "latest_version name ?db' = latest_version name db + 1"
    and li: "latest_id name ?db' = Some (np_id prompt)"
    using latest_after_create [OF nm, of ?row db] by simp_all
  have "create_all rest ?db' =
          (map Inr (chain_rows (latest_version name db + 1) (Some (np_id prompt)) rest),
           ?db'\<lparr>prompts := prompts ?db' @ chain_rows (latest_version name db + 1) (Some (np_id prompt)) rest\<rparr>)"
    using Cons.IH [OF d f n] by (simp only: lv li)
  with step show ?case by simp
qed

lemma chain_rows_length: "length (chain_rows v b inputs) = length inputs"
  by (induction inputs arbitrary: v b) simp_all

lemma chain_rows_nth:
  assumes "k < length inputs"
  shows "chain_rows v b inputs ! k =
           row_of (inputs ! k) (if k = 0 then b else Some (np_id (inputs ! (k - 1)))) (v + int k + 1)"
  using assms
proof (induction inputs arbitrary: v b k)
  case Nil
  then show ?case by simp
next
  case (Cons prompt rest)
  show ?case
  proof (cases k)
    case 0
    then show ?thesis by simp
  next
    case (Suc j)
    with Cons.prems have "j < length rest" by simp
    from Cons.IH [OF this, of "v + 1" "Some (np_id prompt)"] Suc show ?thesis
      by (cases j) (simp_all add: algebra_simps)
  qed
qed


text \<open>
  Claim C2. Let no prompt in the table have the name, and let \<open>inputs\<close> be prompts of that
  name with distinct ids that are not in the table. Creating them one after the other
  succeeds every time, and the prompt created at position \<open>k\<close> (from 0) gets version
  \<open>k + 1\<close>: the first gets version 1 and no base prompt, every later one gets the greatest
  version so far plus 1 and the id of the prompt created just before it as its base.
\<close>

theorem createPrompt_sequential_versions:
  assumes "\<forall>p \<in> set (prompts db). p_name p \<noteq> name"
    and "distinct (map np_id inputs)"
    and "\<forall>i \<in> set inputs. np_id i \<notin> set (map p_id (prompts db))"
    and "\<forall>i \<in> set inputs. np_name i = name"
  shows "\<exists>rows. create_all inputs db = (map Inr rows, db\<lparr>prompts := prompts db @ rows\<rparr>)
           \<and> length rows = length inputs
           \<and> (\<forall>k < length inputs.
                 p_id (rows ! k) = np_id (inputs ! k)
               \<and> p_name (rows ! k) = name
               \<and> p_version (rows ! k) = int k + 1
               \<and> p_base_prompt_id (rows ! k) = (if k = 0 then None else Some (np_id (inputs ! (k - 1)))))"
proof -
  have none: "select_latest name (prompts db) = None"
    using assms(1) by (rule select_latest_None)
  then have v0: "latest_version name db = 0" and b0: "latest_id name db = None"
    by (simp_all add: latest_version_def latest_id_def)
  let ?rows = "chain_rows 0 None inputs"
  have run: "create_all inputs db = (map Inr ?rows, db\<lparr>prompts := prompts db @ ?rows\<rparr>)"
    using create_all_chain [OF assms(2,3,4)] by (simp only: v0 b0)
  have len: "length ?rows = length inputs" by (rule chain_rows_length)
  have each: "\<forall>k < length inputs.
                 p_id (?rows ! k) = np_id (inputs ! k)
               \<and> p_name (?rows ! k) = name
               \<and> p_version (?rows ! k) = int k + 1
               \<and> p_base_prompt_id (?rows ! k) = (if k = 0 then None else Some (np_id (inputs ! (k - 1))))"
  proof (intro allI impI)
    fix k assume k: "k < length inputs"
    then have "inputs ! k \<in> set inputs" by simp
    with assms(4) have "np_name (inputs ! k) = name" by blast
    then show "p_id (?rows ! k) = np_id (inputs ! k)
               \<and> p_name (?rows ! k) = name
               \<and> p_version (?rows ! k) = int k + 1
               \<and> p_base_prompt_id (?rows ! k) = (if k = 0 then None else Some (np_id (inputs ! (k - 1))))"
      by (simp add: chain_rows_nth [OF k] row_of_def)
  qed
  from run len each show ?thesis by blast
qed

theorem createPrompt_sequential_versions_witness:
  "\<exists>rows. fst (create_all [sample_prompt ''p1'' ''Churn'', sample_prompt ''p2'' ''Churn'',
                            sample_prompt ''p3'' ''Churn''] other_database) = map Inr rows
     \<and> map p_version rows = [1, 2, 3]
     \<and> map p_base_prompt_id rows = [None, Some ''p1'', Some ''p2'']"
proof -
  let ?inputs = "[sample_prompt ''p1'' ''Churn'', sample_prompt ''p2'' ''Churn'',
                  sample_prompt ''p3'' ''Churn'']"
  have db: "prompts other_database = [row_of (sample_prompt ''p0'' ''Other'') None 1]"
    by (simp add: other_database_def createPrompt_def Let_def select_latest_def insert_prompt_def
        empty_database_def row_of_def sample_prompt_def)
  have h1: "\<forall>p \<in> set (prompts other_database). p_name p \<noteq> ''Churn''"
    by (simp add: db row_of_def sample_prompt_def)
  have h2: "distinct (map np_id ?inputs)"
    by (simp add: sample_prompt_def)
  have h3: "\<forall>i \<in> set ?inputs. np_id i \<notin> set (map p_id (prompts other_database))"
    by (simp add: db row_of_def sample_prompt_def)
  have h4: "\<forall>i \<in> set ?inputs. np_name i = ''Churn''"
    by (simp add: sample_prompt_def)
  from createPrompt_sequential_versions [OF h1 h2 h3 h4]
  obtain rows where run: "create_all ?inputs other_database =
        (map Inr rows, other_database\<lparr>prompts := prompts other_database @ rows\<rparr>)"
    and len: "length rows = length ?inputs"
    and each: "\<forall>k < length ?inputs.
                 p_id (rows ! k) = np_id (?inputs ! k)
               \<and> p_name (rows ! k) = ''Churn''
               \<and> p_version (rows ! k) = int k + 1
               \<and> p_base_prompt_id (rows ! k) = (if k = 0 then None else Some (np_id (?inputs ! (k - 1))))"
    by blast
  from len obtain r0 r1 r2 where rows: "rows = [r0, r1, r2]"
    by (auto simp: length_Suc_conv numeral_3_eq_3)
  from each have "p_version (rows ! 0) = 1 \<and> p_base_prompt_id (rows ! 0) = None"
    by simp
  moreover from each have "p_version (rows ! 1) = 2 \<and> p_base_prompt_id (rows ! 1) = Some ''p1''"
    by (simp add: sample_prompt_def)
  moreover from each have "p_version (rows ! 2) = 3 \<and> p_base_prompt_id (rows ! 2) = Some ''p2''"
    by (simp add: sample_prompt_def)
  ultimately have "map p_version rows = [1, 2, 3]
     \<and> map p_base_prompt_id rows = [None, Some ''p1'', Some ''p2'']"
    by (simp add: rows)
  with run show ?thesis by auto
qed

section \<open>Properties of prompt deletion\<close>

lemma deletePrompt_unfold:
  "deletePrompt pid db =
     (let db1 = db\<lparr>test_results := filter (\<lambda>r. tr_prompt_id r \<noteq> pid) (test_results db)\<rparr>
      in if pid \<notin> set (map p_id (prompts db)) then (Inr (), db1)
         else if list_ex (\<lambda>p. p_id p \<noteq> pid \<and> p_base_prompt_id p = Some pid) (prompts db)
                 \<or> pid \<in> set (prompt_analytics db)
         then (Inl (Sqlite FOREIGN_KEY_failed), db1)
         else (Inr (), db1\<lparr>prompts := filter (\<lambda>p. p_id p \<noteq> pid) (prompts db)\<rparr>))"
  by (auto simp: deletePrompt_def delete_test_results_def delete_prompt_row_def Let_def
      list_ex_iff)

lemma route_message:
  "includes_str (error_message (Sqlite FOREIGN_KEY_failed)) ''FOREIGN KEY constraint failed''"
  by simp

lemma deletePrompt_success:
  assumes "deletePrompt pid db = (Inr (), db')"
  shows "prompts db' = filter (\<lambda>p. p_id p \<noteq> pid) (prompts db)
       \<and> test_results db' = filter (\<lambda>r. tr_prompt_id r \<noteq> pid) (test_results db)"
proof (cases "pid \<in> set (map p_id (prompts db))")
  case True
  with assms show ?thesis
    by (auto simp: deletePrompt_unfold Let_def split: if_splits)
next
  case False
  then have "filter (\<lambda>p. p_id p \<noteq> pid) (prompts db) = prompts db"
    by (auto simp: filter_id_conv)
  with False assms show ?thesis
    by (auto simp: deletePrompt_unfold Let_def)
qed

lemma deletePrompt_no_other_dependents:
  assumes "\<not> list_ex (\<lambda>p. p_id p \<noteq> pid \<and> p_base_prompt_id p = Some pid) (prompts db)"
    and "pid \<notin> set (prompt_analytics db)"
  shows "fst (deletePrompt pid db) = Inr ()"
  using assms by (simp add: deletePrompt_unfold Let_def)

lemma deletePrompt_dependent_version:
  assumes "pid \<in> set (map p_id (prompts db))"
    and "list_ex (\<lambda>p. p_id p \<noteq> pid \<and> p_base_prompt_id p = Some pid) (prompts db)"
  shows "deletePrompt pid db =
           (Inl (Sqlite FOREIGN_KEY_failed),
            db\<lparr>test_results := filter (\<lambda>r. tr_prompt_id r \<noteq> pid) (test_results db)\<rparr>)"
  using assms by (simp add: deletePrompt_unfold Let_def)

lemma route_foreign_key:
  assumes "deletePrompt pid db = (Inl (Sqlite FOREIGN_KEY_failed), db')"
  shows "delete_prompt_route pid db =
     ((400, ''Cannot delete prompt: It has dependent data (test results or versioned prompts). Please delete the dependent data first.''), db')"
  using assms route_message by (simp add: delete_prompt_route_def)

text \<open>
  Claim C8. For every prompt id: when \<open>deletePrompt\<close> succeeds, the new state is the old
  one without the prompt row and without every test result of that prompt, so no test
  result with that \<open>prompt_id\<close> remains. The test results go first, so they never block
  the deletion: it succeeds whenever no other prompt has the prompt as its base and no
  analytics row refers to it. When it fails with a foreign-key violation, the route answers
  400 with the remediation message.
\<close>

theorem deletePrompt_cascades:
  "(\<forall>db'. deletePrompt pid db = (Inr (), db') \<longrightarrow>
        prompts db' = filter (\<lambda>p. p_id p \<noteq> pid) (prompts db)
      \<and> test_results db' = filter (\<lambda>r. tr_prompt_id r \<noteq> pid) (test_results db)
      \<and> pid \<notin> set (map p_id (prompts db'))
      \<and> pid \<notin> set (map tr_prompt_id (test_results db')))
   \<and> (\<not> list_ex (\<lambda>p. p_id p \<noteq> pid \<and> p_base_prompt_id p = Some pid) (prompts db)
        \<and> pid \<notin> set (prompt_analytics db)
      \<longrightarrow> fst (deletePrompt pid db) = Inr ())
   \<and> (\<forall>db'. deletePrompt pid db = (Inl (Sqlite FOREIGN_KEY_failed), db') \<longrightarrow>
        fst (delete_prompt_route pid db) =
          (400, ''Cannot delete prompt: It has dependent data (test results or versioned prompts). Please delete the dependent data first.''))"
proof (intro conjI allI impI)
  fix db' assume ok: "deletePrompt pid db = (Inr (), db')"
  from deletePrompt_success [OF ok]
  have p: "prompts db' = filter (\<lambda>p. p_id p \<noteq> pid) (prompts db)"
    and t: "test_results db' = filter (\<lambda>r. tr_prompt_id r \<noteq> pid) (test_results db)"
    by simp_all
  show "prompts db' = filter (\<lambda>p. p_id p \<noteq> pid) (prompts db)" by (rule p)
  show "test_results db' = filter (\<lambda>r. tr_prompt_id r \<noteq> pid) (test_results db)" by (rule t)
  show "pid \<notin> set (map p_id (prompts db'))" unfolding p by auto
  show "pid \<notin> set (map tr_prompt_id (test_results db'))" unfolding t by auto
next
  assume "\<not> list_ex (\<lambda>p. p_id p \<noteq> pid \<and> p_base_prompt_id p = Some pid) (prompts db)
        \<and> pid \<notin> set (prompt_analytics db)"
  then show "fst (deletePrompt pid db) = Inr ()"
    by (simp add: deletePrompt_no_other_dependents)
next
  fix db' assume "deletePrompt pid db = (Inl (Sqlite FOREIGN_KEY_failed), db')"
  from route_foreign_key [OF this]
  show "fst (delete_prompt_route pid db) =
          (400, ''Cannot delete prompt: It has dependent data (test results or versioned prompts). Please delete the dependent data first.'')"
    by simp
qed

text \<open>
  Claim C9. When the prompt exists and another prompt has it as its base, \<open>deletePrompt\<close>
  fails with the foreign-key error, the route answers 400, and the state returned is the old
  one without the test results of the prompt: they stay deleted. If the prompt had a test
  result, the stored state has changed although the deletion is reported as failed.
\<close>

theorem deletePrompt_not_atomic:
  assumes "pid \<in> set (map p_id (prompts db))"
    and "list_ex (\<lambda>p. p_id p \<noteq> pid \<and> p_base_prompt_id p = Some pid) (prompts db)"
  shows "deletePrompt pid db =
           (Inl (Sqlite FOREIGN_KEY_failed),
            db\<lparr>test_results := filter (\<lambda>r. tr_prompt_id r \<noteq> pid) (test_results db)\<rparr>)
       \<and> delete_prompt_route pid db =
           ((400, ''Cannot delete prompt: It has dependent data (test results or versioned prompts). Please delete the dependent data first.''),
            db\<lparr>test_results := filter (\<lambda>r. tr_prompt_id r \<noteq> pid) (test_results db)\<rparr>)
       \<and> (list_ex (\<lambda>r. tr_prompt_id r = pid) (test_results db) \<longrightarrow> snd (deletePrompt pid db) \<noteq> db)"
proof (intro conjI impI)
  show del: "deletePrompt pid db =
           (Inl (Sqlite FOREIGN_KEY_failed),
            db\<lparr>test_results := filter (\<lambda>r. tr_prompt_id r \<noteq> pid) (test_results db)\<rparr>)"
    using assms by (rule deletePrompt_dependent_version)
  show "delete_prompt_route pid db =
           ((400, ''Cannot delete prompt: It has dependent data (test results or versioned prompts). Please delete the dependent data first.''),
            db\<lparr>test_results := filter (\<lambda>r. tr_prompt_id r \<noteq> pid) (test_results db)\<rparr>)"
    using del by (rule route_foreign_key)
  assume "list_ex (\<lambda>r. tr_prompt_id r = pid) (test_results db)"
  then obtain r where r: "r \<in> set (test_results db)" "tr_prompt_id r = pid"
    by (auto simp: list_ex_iff)
  then have "r \<notin> set (filter (\<lambda>r. tr_prompt_id r \<noteq> pid) (test_results db))" by simp
  with r(1) have "filter (\<lambda>r. tr_prompt_id r \<noteq> pid) (test_results db) \<noteq> test_results db"
    by metis
  then have "test_results (snd (deletePrompt pid db)) \<noteq> test_results db"
    by (simp add: del)
  then show "snd (deletePrompt pid db) \<noteq> db" by metis
qed


lemmas scenario_defs =
  createTestResult_def createPrompt_def Let_def select_latest_def insert_prompt_def
  insert_test_result_def empty_database_def sample_prompt_def sample_result_def or_else_def
  clock_def

lemma tested_database_eq:
  "tested_database =
     \<lparr>prompts = [stored_prompt ''p1'' ''Churn'' None 1],
      test_results = [stored_result ''t1'' ''p1'' ''2025-01-01T10:00:00.000Z'',
                      stored_result ''t2'' ''p1'' ''2025-01-01T11:00:00.000Z'',
                      stored_result ''t3'' ''p1'' ''2025-01-02T09:00:00.000Z''],
      prompt_analytics = []\<rparr>"
  by (simp add: tested_database_def scenario_defs stored_prompt_def stored_result_def)

lemma versioned_database_eq:
  "versioned_database =
     \<lparr>prompts = [stored_prompt ''p1'' ''Churn'' None 1, stored_prompt ''p2'' ''Churn'' (Some ''p1'') 2],
      test_results = [stored_result ''t1'' ''p1'' ''2025-01-01T10:00:00.000Z''],
      prompt_analytics = []\<rparr>"
  by (simp add: versioned_database_def scenario_defs stored_prompt_def stored_result_def)

theorem deletePrompt_cascades_witness:
  "fst (deletePrompt ''p1'' tested_database) = Inr ()
   \<and> prompts (snd (deletePrompt ''p1'' tested_database)) = []
   \<and> test_results (snd (deletePrompt ''p1'' tested_database)) = []
   \<and> fst (delete_prompt_route ''p1'' versioned_database) =
        (400, ''Cannot delete prompt: It has dependent data (test results or versioned prompts). Please delete the dependent data first.'')"
proof -
  have h: "\<not> list_ex (\<lambda>p. p_id p \<noteq> ''p1'' \<and> p_base_prompt_id p = Some ''p1'') (prompts tested_database)
         \<and> ''p1'' \<notin> set (prompt_analytics tested_database)"
    by (simp add: tested_database_eq stored_prompt_def)
  with deletePrompt_cascades [of "''p1''" tested_database]
  have ok: "fst (deletePrompt ''p1'' tested_database) = Inr ()" by blast
  then have "deletePrompt ''p1'' tested_database = (Inr (), snd (deletePrompt ''p1'' tested_database))"
    by (metis prod.collapse)
  with deletePrompt_cascades [of "''p1''" tested_database]
  have "prompts (snd (deletePrompt ''p1'' tested_database)) =
          filter (\<lambda>p. p_id p \<noteq> ''p1'') (prompts tested_database)
      \<and> test_results (snd (deletePrompt ''p1'' tested_database)) =
          filter (\<lambda>r. tr_prompt_id r \<noteq> ''p1'') (test_results tested_database)"
    by blast
  then have gone: "prompts (snd (deletePrompt ''p1'' tested_database)) = []
      \<and> test_results (snd (deletePrompt ''p1'' tested_database)) = []"
    by (simp add: tested_database_eq stored_prompt_def stored_result_def)
  have "deletePrompt ''p1'' versioned_database =
          (Inl (Sqlite FOREIGN_KEY_failed), snd (deletePrompt ''p1'' versioned_database))"
    by (simp add: versioned_database_eq deletePrompt_unfold Let_def stored_prompt_def)
  with deletePrompt_cascades [of "''p1''" versioned_database]
  have "fst (delete_prompt_route ''p1'' versioned_database) =
        (400, ''Cannot delete prompt: It has dependent data (test results or versioned prompts). Please delete the dependent data first.'')"
    by blast
  with ok gone show ?thesis by blast
qed

theorem deletePrompt_not_atomic_witness:
  "fst (deletePrompt ''p1'' versioned_database) = Inl (Sqlite FOREIGN_KEY_failed)
   \<and> fst (delete_prompt_route ''p1'' versioned_database) =
        (400, ''Cannot delete prompt: It has dependent data (test results or versioned prompts). Please delete the dependent data first.'')
   \<and> map tr_id (test_results versioned_database) = [''t1'']
   \<and> test_results (snd (deletePrompt ''p1'' versioned_database)) = []
   \<and> snd (deletePrompt ''p1'' versioned_database) \<noteq> versioned_database"
proof -
  have h1: "''p1'' \<in> set (map p_id (prompts versioned_database))"
    by (simp add: versioned_database_eq stored_prompt_def)
  have h2: "list_ex (\<lambda>p. p_id p \<noteq> ''p1'' \<and> p_base_prompt_id p = Some ''p1'') (prompts versioned_database)"
    by (simp add: versioned_database_eq stored_prompt_def)
  have h3: "list_ex (\<lambda>r. tr_prompt_id r = ''p1'') (test_results versioned_database)"
    by (simp add: versioned_database_eq stored_result_def)
  note inst = deletePrompt_not_atomic [OF h1 h2]
  from inst have a: "deletePrompt ''p1'' versioned_database =
           (Inl (Sqlite FOREIGN_KEY_failed),
            versioned_database\<lparr>test_results :=
              filter (\<lambda>r. tr_prompt_id r \<noteq> ''p1'') (test_results versioned_database)\<rparr>)"
    by blast
  from inst have b: "fst (delete_prompt_route ''p1'' versioned_database) =
        (400, ''Cannot delete prompt: It has dependent data (test results or versioned prompts). Please delete the dependent data first.'')"
    by simp
  from inst h3 have c: "snd (deletePrompt ''p1'' versioned_database) \<noteq> versioned_database"
    by blast
  have d: "map tr_id (test_results versioned_database) = [''t1'']"
    by (simp add: versioned_database_eq stored_result_def)
  have e: "test_results (snd (deletePrompt ''p1'' versioned_database)) = []"
    unfolding a by (simp add: versioned_database_eq stored_result_def)
  from a b c d e show ?thesis by simp
qed

section \<open>Properties of test results and analytics\<close>

lemma insert_prompt_results:
  "insert_prompt row db = Inr db' \<Longrightarrow> test_results db' = test_results db"
  by (auto simp: insert_prompt_def split: if_splits option.splits)

lemma createPrompt_results: "test_results (snd (createPrompt prompt db)) = test_results db"
  by (auto simp: createPrompt_def Let_def split: sum.splits dest: insert_prompt_results)

lemma clonePrompt_results:
  "test_results (snd (clonePrompt fresh originalId newName db)) = test_results db"
  by (auto simp: clonePrompt_def Let_def split: sum.splits option.splits dest: insert_prompt_results)

lemma deletePrompt_results:
  "set (test_results (snd (deletePrompt pid db))) \<subseteq> set (test_results db)"
  by (auto simp: deletePrompt_unfold Let_def)

lemma createTestResult_row:
  assumes "createTestResult now testResult db = (Inr out, db')"
  shows "\<exists>row. test_results db' = test_results db @ [row] \<and> tr_success row = 1
           \<and> tr_error_message row = None \<and> tr_id row = ntr_id testResult"
  using assms
  by (auto simp: createTestResult_def Let_def insert_test_result_def split: if_splits)

lemma createTestResult_results:
  "test_results (snd (createTestResult now testResult db)) = test_results db
   \<or> (\<exists>row. test_results (snd (createTestResult now testResult db)) = test_results db @ [row]
          \<and> tr_success row = 1)"
  by (auto simp: createTestResult_def Let_def insert_test_result_def)

lemma reachable_success:
  assumes "reachable db"
  shows "\<forall>r \<in> set (test_results db). tr_success r = 1"
  using assms
proof (induction rule: reachable.induct)
  case initial
  then show ?case by (simp add: empty_database_def)
next
  case (create_prompt db prompt)
  then show ?case by (simp add: createPrompt_results)
next
  case (clone_prompt db fresh originalId newName)
  then show ?case by (simp add: clonePrompt_results)
next
  case (delete_prompt db pid)
  then show ?case using deletePrompt_results [of pid db] by blast
next
  case (create_test_result db now testResult)
  from createTestResult_results [of now testResult db] create_test_result.IH
  show ?case by auto
qed

lemma success_rate_all:
  assumes "g \<noteq> []" and "\<forall>r \<in> set g. tr_success r = 1"
  shows "success_rate_of g = 100"
proof -
  from assms(2) have "filter (\<lambda>r. tr_success r = 1) g = g"
    by (simp add: filter_id_conv)
  moreover from assms(1) have "(of_nat (length g) :: rat) \<noteq> 0" by simp
  ultimately show ?thesis by (simp add: success_rate_of_def)
qed

lemma daily_rows:
  assumes "a \<in> set (getPromptAnalytics DATE promptId startDate endDate db)"
  shows "\<exists>g. g \<noteq> [] \<and> set g \<subseteq> set (test_results db) \<and> da_success_rate a = success_rate_of g
            \<and> da_total_tests a = length g"
proof -
  define rows0 where "rows0 = filter (\<lambda>r. tr_prompt_id r = promptId) (test_results db)"
  define rows1 where "rows1 = (case startDate of
       None \<Rightarrow> rows0
     | Some s \<Rightarrow>
         if s = [] then rows0
         else filter (\<lambda>r. case DATE (tr_timestamp r) of None \<Rightarrow> False | Some d \<Rightarrow> s \<le> d) rows0)"
  define rows where "rows = (case endDate of
       None \<Rightarrow> rows1
     | Some e \<Rightarrow>
         if e = [] then rows1
         else filter (\<lambda>r. case DATE (tr_timestamp r) of None \<Rightarrow> False | Some d \<Rightarrow> d \<le> e) rows1)"
  have "set rows1 \<subseteq> set rows0"
    by (auto simp: rows1_def split: option.splits)
  moreover have "set rows \<subseteq> set rows1"
    by (auto simp: rows_def split: option.splits)
  ultimately have sub: "set rows \<subseteq> set (test_results db)"
    by (auto simp: rows0_def)
  have eq: "getPromptAnalytics DATE promptId startDate endDate db =
      map (\<lambda>d. daily_row d (filter (\<lambda>r. DATE (tr_timestamp r) = d) rows))
        (rev (sort (remdups (map (\<lambda>r. DATE (tr_timestamp r)) rows))))"
    by (simp only: getPromptAnalytics_def Let_def rows_def rows1_def rows0_def)
  from assms have "a \<in> (\<lambda>d. daily_row d (filter (\<lambda>r. DATE (tr_timestamp r) = d) rows)) `
      set (map (\<lambda>r. DATE (tr_timestamp r)) rows)"
    unfolding eq by simp
  then obtain d where d: "d \<in> set (map (\<lambda>r. DATE (tr_timestamp r)) rows)"
    and a: "a = daily_row d (filter (\<lambda>r. DATE (tr_timestamp r) = d) rows)"
    by blast
  let ?g = "filter (\<lambda>r. DATE (tr_timestamp r) = d) rows"
  from d have "?g \<noteq> []" by (auto simp: filter_empty_conv)
  moreover have "set ?g \<subseteq> set (test_results db)" using sub by auto
  moreover have "da_success_rate a = success_rate_of ?g" "da_total_tests a = length ?g"
    by (simp_all add: a daily_row_def)
  ultimately show ?thesis by blast
qed

lemma overall_rows:
  assumes "a \<in> set (getOverallAnalytics db)"
  shows "\<exists>g. set g \<subseteq> set (test_results db) \<and> oa_total_tests a = length g
            \<and> oa_success_rate a = (if g = [] then None else Some (success_rate_of g))"
proof -
  from assms obtain p where
    "a = overall_row p (filter (\<lambda>r. tr_prompt_id r = p_id p) (test_results db))"
    by (auto simp: getOverallAnalytics_def)
  then show ?thesis
    by (intro exI [of _ "filter (\<lambda>r. tr_prompt_id r = p_id p) (test_results db)"])
       (simp add: overall_row_def)
qed

text \<open>
  Claim C10. A test result that \<open>createTestResult\<close> stores is a new last row with
  \<open>success = 1\<close>. So in every state that the operations of the file produce from the empty
  database every test result has \<open>success = 1\<close>, every row of \<open>getPromptAnalytics\<close> (a date
  group, never empty) has the success rate 100, and every row of \<open>getOverallAnalytics\<close>
  of a prompt with at least one test result has the success rate 100.
\<close>

theorem persisted_results_all_successful:
  "(\<forall>out db'. createTestResult now testResult db = (Inr out, db') \<longrightarrow>
       (\<exists>row. test_results db' = test_results db @ [row] \<and> tr_id row = ntr_id testResult
              \<and> tr_success row = 1))
   \<and> (reachable db \<longrightarrow>
        (\<forall>r \<in> set (test_results db). tr_success r = 1)
      \<and> (\<forall>a \<in> set (getPromptAnalytics DATE promptId startDate endDate db).
            0 < da_total_tests a \<and> da_success_rate a = 100)
      \<and> (\<forall>a \<in> set (getOverallAnalytics db).
            0 < oa_total_tests a \<longrightarrow> oa_success_rate a = Some 100))"
proof (intro conjI allI impI ballI)
  fix out db' assume "createTestResult now testResult db = (Inr out, db')"
  from createTestResult_row [OF this]
  show "\<exists>row. test_results db' = test_results db @ [row] \<and> tr_id row = ntr_id testResult
              \<and> tr_success row = 1"
    by blast
next
  fix r assume "reachable db" "r \<in> set (test_results db)"
  then show "tr_success r = 1" using reachable_success by blast
next
  fix a assume r: "reachable db"
    and a: "a \<in> set (getPromptAnalytics DATE promptId startDate endDate db)"
  from daily_rows [OF a] obtain g where g: "g \<noteq> []" "set g \<subseteq> set (test_results db)"
    "da_success_rate a = success_rate_of g" "da_total_tests a = length g"
    by blast
  from g(2) reachable_success [OF r] have "\<forall>r \<in> set g. tr_success r = 1" by blast
  with g show "0 < da_total_tests a" "da_success_rate a = 100"
    by (simp_all add: success_rate_all)
next
  fix a assume r: "reachable db" and a: "a \<in> set (getOverallAnalytics db)"
    and pos: "0 < oa_total_tests a"
  from overall_rows [OF a] obtain g where g: "set g \<subseteq> set (test_results db)"
    "oa_total_tests a = length g"
    "oa_success_rate a = (if g = [] then None else Some (success_rate_of g))"
    by blast
  from pos g(2) have ne: "g \<noteq> []" by auto
  from g(1) reachable_success [OF r] have "\<forall>r \<in> set g. tr_success r = 1" by blast
  with ne g(3) show "oa_success_rate a = Some 100"
    by (simp add: success_rate_all)
qed

lemma tested_reachable: "reachable tested_database"
  unfolding tested_database_def
  by (intro reachable.create_test_result reachable.create_prompt reachable.initial)

theorem persisted_results_all_successful_witness:
  "reachable tested_database
   \<and> (\<exists>row. test_results (snd (createTestResult clock (sample_result ''t4'' ''p1'' clock) tested_database)) =
               test_results tested_database @ [row]
            \<and> tr_id row = ''t4'' \<and> tr_success row = 1)
   \<and> map tr_success (test_results tested_database) = [1, 1, 1]
   \<and> map da_success_rate (getPromptAnalytics date_prefix ''p1'' None None tested_database) = [100, 100]
   \<and> map oa_success_rate (getOverallAnalytics tested_database) = [Some 100]"
proof -
  let ?new = "sample_result ''t4'' ''p1'' clock"
  note inst = persisted_results_all_successful
    [of clock ?new tested_database date_prefix "''p1''" None None]
  have "fst (createTestResult clock ?new tested_database) = Inr ?new"
    by (simp add: createTestResult_def Let_def insert_test_result_def tested_database_eq
        stored_prompt_def stored_result_def sample_result_def)
  then have "createTestResult clock ?new tested_database =
      (Inr ?new, snd (createTestResult clock ?new tested_database))"
    by (metis prod.collapse)
  with inst have "\<exists>row. test_results (snd (createTestResult clock ?new tested_database)) =
               test_results tested_database @ [row]
            \<and> tr_id row = ntr_id ?new \<and> tr_success row = 1"
    by blast
  then have stored: "\<exists>row. test_results (snd (createTestResult clock ?new tested_database)) =
               test_results tested_database @ [row]
            \<and> tr_id row = ''t4'' \<and> tr_success row = 1"
    by (simp add: sample_result_def)
  from inst tested_reachable
  have rows: "\<forall>r \<in> set (test_results tested_database). tr_success r = 1"
    and daily: "\<forall>a \<in> set (getPromptAnalytics date_prefix ''p1'' None None tested_database).
            0 < da_total_tests a \<and> da_success_rate a = 100"
    and overall: "\<forall>a \<in> set (getOverallAnalytics tested_database).
            0 < oa_total_tests a \<longrightarrow> oa_success_rate a = Some 100"
    by blast+
  have l1: "length (test_results tested_database) = 3"
    by (simp add: tested_database_eq)
  have l2: "length (getPromptAnalytics date_prefix ''p1'' None None tested_database) = 2"
    by (simp add: getPromptAnalytics_def Let_def tested_database_eq stored_result_def
        date_prefix_def)
  have l3: "map oa_total_tests (getOverallAnalytics tested_database) = [3]"
    by (simp add: getOverallAnalytics_def overall_row_def tested_database_eq stored_result_def
        stored_prompt_def)
  have m: "map f xs = replicate (length xs) c" if "\<forall>x \<in> set xs. f x = c" for f :: "'a \<Rightarrow> 'b" and xs c
    using that by (induction xs) simp_all
  have a: "map tr_success (test_results tested_database) = [1, 1, 1]"
    using m [OF rows] by (simp add: l1 numeral_3_eq_3)
  from daily have "\<forall>a \<in> set (getPromptAnalytics date_prefix ''p1'' None None tested_database).
      da_success_rate a = 100" by blast
  from m [OF this]
  have b: "map da_success_rate (getPromptAnalytics date_prefix ''p1'' None None tested_database) = [100, 100]"
    by (simp add: l2 numeral_2_eq_2)
  from l3 obtain x where x: "getOverallAnalytics tested_database = [x]" "oa_total_tests x = 3"
    by auto
  with overall have "oa_success_rate x = Some 100" by simp
  with x have c: "map oa_success_rate (getOverallAnalytics tested_database) = [Some 100]"
    by simp
  from tested_reachable stored a b c show ?thesis by blast
qed

end
